theory Spec2Isabelle
  imports Main "HOL-Library.Sublist"
begin

section \<open>Python values used by llmf\<close>

text \<open>
  Python strings are modelled as \<open>string\<close> (lists of characters with code points below 256).
  Every exception the modelled code can raise is a value of \<open>error\<close>: the exception class
  with its message (\<open>err.args[0]\<close>). A function that can raise returns \<open>error + 'a\<close>.
  Dictionaries are modelled at their annotated type \<open>Dict[str, str]\<close>.
\<close>

datatype error =
    ValueError string
  | IndexError
  | KeyError string
  | FileNotFoundError string
  | CollaboratorError string

type_synonym pydict = "string \<rightharpoonup> string"

definition quoted :: "string \<Rightarrow> string" where
  "quoted s = CHR 0x27 # s @ [CHR 0x27]"

text \<open>\<open>str.isspace\<close> on the code points below 256.\<close>

definition isspace :: "char \<Rightarrow> bool" where
  "isspace c = (c \<in> set [CHR 0x09, CHR 0x0A, CHR 0x0B, CHR 0x0C, CHR 0x0D,
                          CHR 0x1C, CHR 0x1D, CHR 0x1E, CHR 0x1F, CHR 0x20,
                          CHR 0x85, CHR 0xA0])"

text \<open>\<open>s.strip()\<close> and \<open>s.strip(chars)\<close>.\<close>

definition strip :: "string \<Rightarrow> string" where
  "strip s = rev (dropWhile isspace (rev (dropWhile isspace s)))"

definition strip_chars :: "string \<Rightarrow> string \<Rightarrow> string" where
  "strip_chars chars s =
     rev (dropWhile (\<lambda>c. c \<in> set chars) (rev (dropWhile (\<lambda>c. c \<in> set chars) s)))"

text \<open>\<open>s.startswith(p)\<close> is \<open>prefix p s\<close>. \<open>s.find(sub)\<close>: the lowest index at which
  \<open>sub\<close> occurs in \<open>s\<close>; \<open>sub in s\<close> is \<open>find_sub sub s \<noteq> None\<close> and \<open>s.index(sub)\<close> its value.\<close>

fun find_sub :: "string \<Rightarrow> string \<Rightarrow> nat option" where
  "find_sub sub [] = (if sub = [] then Some 0 else None)"
| "find_sub sub (c # cs) =
     (if prefix sub (c # cs) then Some 0 else map_option Suc (find_sub sub cs))"

text \<open>\<open>s.replace(old, new)\<close>: all non-overlapping occurrences, found left to right.\<close>

fun replace :: "string \<Rightarrow> string \<Rightarrow> string \<Rightarrow> string" where
  "replace [] old new = (if old = [] then new else [])"
| "replace (c # cs) old new =
     (if old = [] then new @ c # replace cs old new
      else if prefix old (c # cs) then new @ replace (drop (length old - 1) cs) old new
      else c # replace cs old new)"

section \<open>Templates (mappings/completions/base.py)\<close>

text \<open>
  \<open>TextCompletionsMappingTemplatePart\<close> and \<open>TextCompletionsMappingTemplate\<close>. The fields
  \<open>raw\<close> and \<open>key\<close> of a part are named \<open>part_raw\<close> and \<open>part_key\<close>, since a template
  has a field \<open>raw\<close> of its own.
\<close>

record part =
  part_raw :: string
  part_key :: "string option"

record template =
  raw :: string
  parts :: "part list"
  keys :: "string list"

subsection \<open>The two regular expressions\<close>

definition not_brace :: "char \<Rightarrow> bool" where
  "not_brace c = (c \<noteq> CHR ''{'' \<and> c \<noteq> CHR ''}'')"

definition not_close :: "char \<Rightarrow> bool" where
  "not_close c = (c \<noteq> CHR ''}'')"

text \<open>
  \<open>re.compile(r'(\{[^}]*\})|([^{}]+)').finditer(raw)\<close>: the list of the matches' groups
  \<open>(key_match, text_match)\<close>, \<open>None\<close> for the group that did not take part. At an opening
  brace the first alternative matches when a closing brace follows somewhere, up to the
  first of them; at any other non-brace character the second alternative takes the maximal
  run of non-brace characters; where neither matches, the scan moves one character on.
\<close>

function finditer :: "string \<Rightarrow> (string option \<times> string option) list" where
  "finditer [] = []"
| "finditer (c # cs) =
     (if c = CHR ''{'' then
        (if CHR ''}'' \<in> set cs
         then (Some (c # takeWhile not_close cs @ ''}''), None)
                # finditer (drop 1 (dropWhile not_close cs))
         else finditer cs)
      else if c = CHR ''}'' then finditer cs
      else (None, Some (c # takeWhile not_brace cs)) # finditer (dropWhile not_brace cs))"
  by pat_completeness auto
termination
  by (relation "measure length") (auto simp: le_imp_less_Suc length_dropWhile_le less_Suc_eq_le
        intro: le_trans [OF diff_le_self length_dropWhile_le])

text \<open>\<open>re.findall(r'\{([^}]*)\}', raw)\<close>: the first group of every match.\<close>

function findall_keys :: "string \<Rightarrow> string list" where
  "findall_keys [] = []"
| "findall_keys (c # cs) =
     (if c = CHR ''{'' \<and> CHR ''}'' \<in> set cs
      then takeWhile not_close cs # findall_keys (drop 1 (dropWhile not_close cs))
      else findall_keys cs)"
  by pat_completeness auto
termination
  by (relation "measure length") (auto simp: le_imp_less_Suc length_dropWhile_le less_Suc_eq_le
        intro: le_trans [OF diff_le_self length_dropWhile_le])

subsection \<open>Loading a template\<close>

text \<open>\<open>_parse_template_keys\<close>: the loop over the matches with its set of seen keys.\<close>

fun unique_keys_loop :: "string list \<Rightarrow> string set \<Rightarrow> string list \<Rightarrow> string list" where
  "unique_keys_loop [] template_key_set unique_keys = unique_keys"
| "unique_keys_loop (k # ks) template_key_set unique_keys =
     (if k \<notin> template_key_set
      then unique_keys_loop ks (insert k template_key_set) (unique_keys @ [k])
      else unique_keys_loop ks template_key_set unique_keys)"

definition parse_template_keys :: "string \<Rightarrow> string list" where
  "parse_template_keys r = unique_keys_loop (findall_keys r) {} []"

text \<open>Python's truth value of a match group: \<open>None\<close> and the empty string are false.\<close>

definition truthy :: "string option \<Rightarrow> bool" where
  "truthy g = (case g of None \<Rightarrow> False | Some s \<Rightarrow> s \<noteq> [])"

text \<open>
  \<open>_parse_template_into_parts\<close>: the loop body appends the part of the match, then
  compares the last two parts; the check for an empty list follows the loop.
\<close>

definition append_match :: "part list \<Rightarrow> string option \<times> string option \<Rightarrow> part list" where
  "append_match template_parts m =
     (if truthy (fst m)
      then template_parts @ [\<lparr>part_raw = the (fst m),
                               part_key = Some (strip_chars ''{}'' (the (fst m)))\<rparr>]
      else if truthy (snd m)
      then template_parts @ [\<lparr>part_raw = the (snd m), part_key = None\<rparr>]
      else template_parts)"

definition same_kind_at_end :: "part list \<Rightarrow> bool" where
  "same_kind_at_end ps =
     (length ps > 1 \<and>
      (part_key (ps ! (length ps - 1)) = None) = (part_key (ps ! (length ps - 2)) = None))"

fun parts_loop ::
  "(string option \<times> string option) list \<Rightarrow> part list \<Rightarrow> error + part list" where
  "parts_loop [] template_parts = Inr template_parts"
| "parts_loop (m # ms) template_parts =
     (let template_parts' = append_match template_parts m
      in if same_kind_at_end template_parts'
         then Inl (ValueError ''Keys and non-keys must alternate within a template.'')
         else parts_loop ms template_parts')"

definition parse_template_into_parts :: "string \<Rightarrow> error + part list" where
  "parse_template_into_parts r =
     (case parts_loop (finditer r) [] of
        Inl e \<Rightarrow> Inl e
      | Inr template_parts \<Rightarrow>
          if length template_parts = 0 then Inl (ValueError ''Template cannot be empty.'')
          else Inr template_parts)"

definition load :: "string \<Rightarrow> error + template" where
  "load raw0 =
     (let r = strip raw0
      in case parse_template_into_parts r of
           Inl e \<Rightarrow> Inl e
         | Inr ps \<Rightarrow> Inr \<lparr>raw = r, parts = ps, keys = parse_template_keys r\<rparr>)"

subsection \<open>fill\<close>

definition missing_key_message :: "string \<Rightarrow> string \<Rightarrow> string" where
  "missing_key_message k r =
     ''Key '' @ k @ '' missing from dictionary for template '' @ quoted r"

definition bracketed :: "string \<Rightarrow> string" where
  "bracketed k = ''{'' @ k @ ''}''"

fun fill_loop :: "string list \<Rightarrow> string \<Rightarrow> pydict \<Rightarrow> string \<Rightarrow> error + string" where
  "fill_loop [] r values filled_template = Inr filled_template"
| "fill_loop (k # ks) r values filled_template =
     (case values k of
        None \<Rightarrow> Inl (ValueError (missing_key_message k r))
      | Some v \<Rightarrow> fill_loop ks r values (replace filled_template (bracketed k) v))"

definition fill :: "template \<Rightarrow> pydict \<Rightarrow> error + string" where
  "fill t values = fill_loop (keys t) (raw t) values (raw t)"

subsection \<open>parse\<close>

definition expected_at_start_message :: "string \<Rightarrow> string \<Rightarrow> string" where
  "expected_at_start_message lit text =
     ''Expected '' @ quoted lit @ '' at start of text '' @ quoted text @ ''.''"

definition expected_in_message :: "string \<Rightarrow> string \<Rightarrow> string" where
  "expected_in_message lit text =
     ''Expected '' @ quoted lit @ '' in text '' @ quoted text @ ''.''"

text \<open>
  \<open>parsed_keys_to_values[part.key] = value\<close>. The model keeps the entries under \<open>str\<close>
  keys, which is what the declared result type \<open>Dict[str, str]\<close> holds; Python would file
  a value under the key \<open>None\<close> when the part at a placeholder position is a literal,
  which the alternation of parts excludes (lemma \<open>alternates_placeholder_positions\<close>).
\<close>

definition store :: "string option \<Rightarrow> string \<Rightarrow> pydict \<Rightarrow> pydict" where
  "store k v d = (case k of None \<Rightarrow> d | Some k' \<Rightarrow> d(k' \<mapsto> v))"

text \<open>The \<open>while\<close> loop of \<open>parse\<close>, on the index \<open>cur_key_part_index\<close>.\<close>

function parse_loop :: "part list \<Rightarrow> nat \<Rightarrow> string \<Rightarrow> pydict \<Rightarrow> error + pydict" where
  "parse_loop ps i cur_text d =
     (if i < length ps then
        (if i = length ps - 1
         then parse_loop ps (i + 2) cur_text (store (part_key (ps ! i)) cur_text d)
         else
           (case find_sub (part_raw (ps ! (i + 1))) cur_text of
              None \<Rightarrow>
                Inl (ValueError (expected_in_message (part_raw (ps ! (i + 1))) cur_text))
            | Some next_non_key_char_index \<Rightarrow>
                parse_loop ps (i + 2)
                  (drop (next_non_key_char_index + length (part_raw (ps ! (i + 1)))) cur_text)
                  (store (part_key (ps ! i)) (take next_non_key_char_index cur_text) d)))
      else Inr d)"
  by pat_completeness auto
termination
  by (relation "measure (\<lambda>(ps, i, cur_text, d). length ps - i)") auto

text \<open>
  \<open>parse\<close>: \<open>self.parts[0]\<close> raises IndexError on an empty tuple of parts. The test for
  the leading literal reads \<open>text\<close>, the slice that removes it reads \<open>cur_text\<close>.
\<close>

definition parse :: "template \<Rightarrow> string \<Rightarrow> error + pydict" where
  "parse t text =
     (let cur_text = strip text
      in case parts t of
           [] \<Rightarrow> Inl IndexError
         | p0 # _ \<Rightarrow>
             if part_key p0 = None then
               (if \<not> prefix (part_raw p0) text
                then Inl (ValueError (expected_at_start_message (part_raw p0) text))
                else parse_loop (parts t) 1 (drop (length (part_raw p0)) cur_text) Map.empty)
             else parse_loop (parts t) 0 cur_text Map.empty)"

section \<open>Corpora (corpora/schematized.py)\<close>

text \<open>
  A \<open>SchematizedTextCorpusExample\<close> wraps one dictionary \<open>_field_values\<close> and is modelled
  as that dictionary; a \<open>SchematizedTextCorpus\<close> has its tuple of fields (the field
  \<open>corpus_fields\<close>) and its tuple of examples.
\<close>

type_synonym example = pydict

record corpus =
  corpus_fields :: "string list"
  examples :: "example list"

text \<open>
  \<open>__add__\<close>: \<open>dict(self._field_values, **other._field_values)\<close>, the left dictionary
  overridden by the right one; with \<open>str\<close> keys, as the fields are, the call cannot raise.
\<close>

definition add :: "example \<Rightarrow> example \<Rightarrow> example" where
  "add self other = self ++ other"

definition join :: "corpus \<Rightarrow> corpus \<Rightarrow> error + corpus" where
  "join self other =
     (if card (set (corpus_fields self) \<inter> set (corpus_fields other)) > 0
      then Inl (ValueError ''Cannot join corpora that have fields in common.'')
      else if length (examples self) \<noteq> length (examples other)
      then Inl (ValueError ''Joined corpora must contain the same number of rows.'')
      else Inr \<lparr>corpus_fields = corpus_fields self @ corpus_fields other,
                examples = map (\<lambda>(index, ex). add ex (examples other ! index))
                             (enumerate 0 (examples self))\<rparr>)"

section \<open>Mapping definitions (mappings/example.py, mappings/completions/base.py)\<close>

record text_mapping_example =
  inputs :: pydict
  outputs :: pydict

text \<open>
  \<open>TextCompletionsMappingDefinition\<close>; its field \<open>examples\<close> is named \<open>definition_examples\<close>,
  since a corpus has a field \<open>examples\<close> too.
\<close>

record mapping_definition =
  guidelines :: string
  input_template :: template
  output_template :: template
  definition_examples :: "text_mapping_example list"
  source_dir_path :: "string option"

text \<open>\<open>{key: corpus_example[key] for key in keys}\<close>; a missing field raises KeyError.\<close>

fun select_fields :: "example \<Rightarrow> string list \<Rightarrow> pydict \<Rightarrow> error + pydict" where
  "select_fields corpus_example [] d = Inr d"
| "select_fields corpus_example (k # ks) d =
     (case corpus_example k of
        None \<Rightarrow> Inl (KeyError k)
      | Some v \<Rightarrow> select_fields corpus_example ks (d(k \<mapsto> v)))"

fun examples_loop ::
  "example list \<Rightarrow> string list \<Rightarrow> string list \<Rightarrow> text_mapping_example list
     \<Rightarrow> error + text_mapping_example list" where
  "examples_loop [] input_keys output_keys acc = Inr acc"
| "examples_loop (corpus_example # rest) input_keys output_keys acc =
     (case select_fields corpus_example input_keys Map.empty of
        Inl e \<Rightarrow> Inl e
      | Inr ins \<Rightarrow>
          (case select_fields corpus_example output_keys Map.empty of
             Inl e \<Rightarrow> Inl e
           | Inr outs \<Rightarrow>
               examples_loop rest input_keys output_keys
                 (acc @ [\<lparr>inputs = ins, outputs = outs\<rparr>])))"

text \<open>
  \<open>_load_examples_from_file\<close>. Reading a corpus file goes through the yaml and csv
  libraries; \<open>load_from_file\<close> is a parameter here.
\<close>

definition load_examples_from_file ::
  "(string \<Rightarrow> error + corpus) \<Rightarrow> string \<Rightarrow> string list \<Rightarrow> string list
     \<Rightarrow> error + text_mapping_example list" where
  "load_examples_from_file load_from_file file_path input_keys output_keys =
     (case load_from_file file_path of
        Inl e \<Rightarrow> Inl e
      | Inr c \<Rightarrow> examples_loop (examples c) input_keys output_keys [])"

text \<open>\<open>os.path.join(dir_path, name)\<close> for a relative \<open>name\<close>, on POSIX.\<close>

definition path_join :: "string \<Rightarrow> string \<Rightarrow> string" where
  "path_join dir_path name =
     (if dir_path = [] then name
      else if last dir_path = CHR ''/'' then dir_path @ name
      else dir_path @ ''/'' @ name)"

text \<open>The file system is a map from paths to file contents; opening a missing file raises.\<close>

definition read_file :: "(string \<rightharpoonup> string) \<Rightarrow> string \<Rightarrow> error + string" where
  "read_file fs file_path =
     (case fs file_path of None \<Rightarrow> Inl (FileNotFoundError file_path) | Some content \<Rightarrow> Inr content)"

text \<open>The check of lines 173 and 174 of \<open>load_from_directory\<close>.\<close>

definition check_key_overlap :: "template \<Rightarrow> template \<Rightarrow> error + unit" where
  "check_key_overlap input_t output_t =
     (if card (set (keys input_t) \<inter> set (keys output_t)) > 1
      then Inl (ValueError ''Template key occurs in both input and output templates'')
      else Inr ())"

text \<open>What \<open>load_from_directory\<close> does after the check: the examples and the result.\<close>

definition load_examples_and_build ::
  "(string \<rightharpoonup> string) \<Rightarrow> (string \<Rightarrow> error + corpus) \<Rightarrow> string \<Rightarrow> string \<Rightarrow> template
     \<Rightarrow> template \<Rightarrow> error + mapping_definition" where
  "load_examples_and_build fs load_from_file dir_path g input_t output_t =
     (case
        (if path_join dir_path ''examples.yaml'' \<in> dom fs
         then load_examples_from_file load_from_file (path_join dir_path ''examples.yaml'')
                (keys input_t) (keys output_t)
         else if path_join dir_path ''examples.tsv'' \<in> dom fs
         then load_examples_from_file load_from_file (path_join dir_path ''examples.tsv'')
                (keys input_t) (keys output_t)
         else Inl (FileNotFoundError
                (''TextCompletionsMapping requires examples.yaml or examples.tsv in given directory ''
                   @ quoted dir_path)))
      of Inl e \<Rightarrow> Inl e
       | Inr exs \<Rightarrow>
           Inr \<lparr>guidelines = g, input_template = input_t, output_template = output_t,
                definition_examples = exs, source_dir_path = Some dir_path\<rparr>)"

definition load_from_directory ::
  "(string \<rightharpoonup> string) \<Rightarrow> (string \<Rightarrow> error + corpus) \<Rightarrow> string
     \<Rightarrow> error + mapping_definition" where
  "load_from_directory fs load_from_file dir_path =
     (case read_file fs (path_join dir_path ''guidelines.txt'') of
        Inl e \<Rightarrow> Inl e
      | Inr g0 \<Rightarrow>
     (case read_file fs (path_join dir_path ''input_template.txt'') of
        Inl e \<Rightarrow> Inl e
      | Inr i0 \<Rightarrow>
     (case load i0 of
        Inl e \<Rightarrow> Inl e
      | Inr input_t \<Rightarrow>
     (case read_file fs (path_join dir_path ''output_template.txt'') of
        Inl e \<Rightarrow> Inl e
      | Inr o0 \<Rightarrow>
     (case load o0 of
        Inl e \<Rightarrow> Inl e
      | Inr output_t \<Rightarrow>
     (case check_key_overlap input_t output_t of
        Inl e \<Rightarrow> Inl e
      | Inr _ \<Rightarrow>
          load_examples_and_build fs load_from_file dir_path (strip g0) input_t output_t))))))"

section \<open>The mapping engine\<close>

text \<open>
  \<open>TextCompletionsMappingOutput\<close>; its field \<open>raw\<close> is named \<open>output_raw\<close>.
\<close>

record mapping_output =
  output_raw :: string
  parsed :: pydict
  success :: bool
  error_message :: "string option"

text \<open>
  Modelled from the spec: the roles of a conversation turn (system, user, assistant); the
  enumeration \<open>ChatGPTRole\<close> is declared in a module that is not among the sources.
\<close>

datatype role = SYSTEM | USER | ASSISTANT

text \<open>A \<open>ChatGPTPrompt\<close> is its tuple of messages; \<open>prompt + (role, text)\<close> appends one.\<close>

type_synonym prompt = "(role \<times> string) list"

text \<open>\<open>{key: parse_error_default for key in keys}\<close>.\<close>

definition default_parsed :: "string list \<Rightarrow> string \<Rightarrow> pydict" where
  "default_parsed ks d = fold (\<lambda>k m. m(k \<mapsto> d)) ks Map.empty"

text \<open>
  \<open>ChatGPTTextCompletionsMapping.map\<close> (mappings/completions/openai/gpt.py). The client's
  \<open>run\<close> is a parameter: a prompt gives a completion or an error. The two calls of
  \<open>logging.info\<close> leave the result alone and are not modelled, except that their argument
  \<open>self._prompt_prefix[0][1][:64]\<close> raises IndexError on a prefix without messages.
  Only a ValueError of \<open>parse\<close> is caught.
\<close>

definition map_gpt ::
  "mapping_definition \<Rightarrow> prompt \<Rightarrow> (prompt \<Rightarrow> error + string) \<Rightarrow> pydict \<Rightarrow> string option
     \<Rightarrow> error + mapping_output" where
  "map_gpt defn prompt_prefix run input parse_error_default =
     (case fill (input_template defn) input of
        Inl e \<Rightarrow> Inl e
      | Inr user_input_prompt_message \<Rightarrow>
     (case run (prompt_prefix @ [(USER, user_input_prompt_message)]) of
        Inl e \<Rightarrow> Inl e
      | Inr completion \<Rightarrow>
          if prompt_prefix = [] then Inl IndexError
          else
            (case parse (output_template defn) completion of
               Inr d \<Rightarrow>
                 Inr \<lparr>output_raw = completion, parsed = d, success = True,
                      error_message = None\<rparr>
             | Inl (ValueError msg) \<Rightarrow>
                 (case parse_error_default of
                    None \<Rightarrow> Inl (ValueError msg)
                  | Some dflt \<Rightarrow>
                      Inr \<lparr>output_raw = completion,
                           parsed = default_parsed (keys (output_template defn)) dflt,
                           success = False, error_message = Some msg\<rparr>)
             | Inl e \<Rightarrow> Inl e)))"






section \<open>Notions used by the properties\<close>

text \<open>
  The parts that the matches of \<open>_parse_template_into_parts\<close> yield, all of them, without
  the check that the loop makes after each one.
\<close>

definition tokenize :: "string \<Rightarrow> part list" where
  "tokenize r = foldl append_match [] (finditer r)"

text \<open>Literal parts and placeholder parts alternate: no two neighbours are of one kind.\<close>

fun alternates :: "part list \<Rightarrow> bool" where
  "alternates [] = True"
| "alternates [p] = True"
| "alternates (p # q # ps) =
     ((part_key p = None) \<noteq> (part_key q = None) \<and> alternates (q # ps))"

text \<open>
  The braces of a string are well formed: every brace belongs to a placeholder
  \<open>{name}\<close> whose name contains no brace. The flag tells whether the scan is inside one.
\<close>

fun braces_ok :: "bool \<Rightarrow> string \<Rightarrow> bool" where
  "braces_ok inside [] = (\<not> inside)"
| "braces_ok inside (c # cs) =
     (if c = CHR ''{'' then \<not> inside \<and> braces_ok True cs
      else if c = CHR ''}'' then inside \<and> braces_ok False cs
      else braces_ok inside cs)"

definition well_braced :: "string \<Rightarrow> bool" where
  "well_braced r = braces_ok False r"

definition brace_free :: "string \<Rightarrow> bool" where
  "brace_free s = list_all not_brace s"

text \<open>
  A part as it stands in a filled template: a literal part is its text, a placeholder part
  is the value of its key, and stays as it is written when the key has no value.
\<close>

definition fill_part :: "pydict \<Rightarrow> part \<Rightarrow> string" where
  "fill_part values p =
     (case part_key p of
        None \<Rightarrow> part_raw p
      | Some k \<Rightarrow> (case values k of None \<Rightarrow> part_raw p | Some v \<Rightarrow> v))"

text \<open>
  A literal part is some non-empty text without braces; a placeholder part is written
  \<open>{name}\<close> and its key is the name, without braces.
\<close>

definition wf_part :: "part \<Rightarrow> bool" where
  "wf_part p =
     (case part_key p of
        None \<Rightarrow> part_raw p \<noteq> [] \<and> brace_free (part_raw p)
      | Some k \<Rightarrow> brace_free k \<and> part_raw p = bracketed k)"

definition part_keys :: "part list \<Rightarrow> string list" where
  "part_keys ps = List.map_filter part_key ps"

text \<open>
  The loop of \<open>parse\<close> as a recursion on the parts that are left: a placeholder part and
  the literal part after it are consumed together.
\<close>

fun parse_pairs :: "part list \<Rightarrow> string \<Rightarrow> pydict \<Rightarrow> error + pydict" where
  "parse_pairs [] cur_text d = Inr d"
| "parse_pairs [p] cur_text d = Inr (store (part_key p) cur_text d)"
| "parse_pairs (p # q # ps) cur_text d =
     (case find_sub (part_raw q) cur_text of
        None \<Rightarrow> Inl (ValueError (expected_in_message (part_raw q) cur_text))
      | Some j \<Rightarrow>
          parse_pairs ps (drop (j + length (part_raw q)) cur_text)
            (store (part_key p) (take j cur_text) d))"

text \<open>
  The separators can be found again: for every placeholder part that a literal part follows,
  the value of the placeholder followed by that literal contains the literal at its end only.
\<close>

fun separators_ok :: "pydict \<Rightarrow> part list \<Rightarrow> bool" where
  "separators_ok values (p # q # ps) =
     ((part_key p \<noteq> None \<longrightarrow>
         find_sub (part_raw q) (fill_part values p @ part_raw q)
           = Some (length (fill_part values p)))
      \<and> separators_ok values (q # ps))"
| "separators_ok values ps = True"

section \<open>Properties of corpora\<close>

text \<open>
  Claim C9. Record concatenation (\<open>__add__\<close>) is a total function, so it never raises, also
  when the two records share fields: the field set of the result is the union of the
  operands' field sets, and a field present in both operands (indeed every field of the
  right operand) holds the right operand's value; the other fields keep the left value.
\<close>

theorem add_union_right_wins:
  "dom (add a b) = dom a \<union> dom b
   \<and> (\<forall>f \<in> dom a \<inter> dom b. add a b f = b f)
   \<and> (\<forall>f \<in> dom b. add a b f = b f)
   \<and> (\<forall>f. f \<notin> dom b \<longrightarrow> add a b f = a f)"
  by (auto simp: add_def map_add_def split: option.splits)

theorem add_union_right_wins_witness:
  "''y'' \<in> dom [''x'' \<mapsto> ''1'', ''y'' \<mapsto> ''2''] \<inter> dom [''y'' \<mapsto> ''3'', ''z'' \<mapsto> ''4'']
   \<and> add [''x'' \<mapsto> ''1'', ''y'' \<mapsto> ''2''] [''y'' \<mapsto> ''3'', ''z'' \<mapsto> ''4''] ''y'' = Some ''3''
   \<and> ''x'' \<notin> dom [''y'' \<mapsto> ''3'', ''z'' \<mapsto> ''4'']
   \<and> add [''x'' \<mapsto> ''1'', ''y'' \<mapsto> ''2''] [''y'' \<mapsto> ''3'', ''z'' \<mapsto> ''4''] ''x'' = Some ''1''"
  using add_union_right_wins [of "[''x'' \<mapsto> ''1'', ''y'' \<mapsto> ''2'']" "[''y'' \<mapsto> ''3'', ''z'' \<mapsto> ''4'']"]
  by simp

text \<open>
  Claim C6, as stated, fails where the two field sets share a name and the record counts
  differ as well: the check of the fields comes first, so \<open>join\<close> raises the error about
  common fields and not the row-count error.
\<close>

theorem join_row_count_counterexample:
  "length (examples \<lparr>corpus_fields = [''a'', ''b''], examples = [[''a'' \<mapsto> ''1'', ''b'' \<mapsto> ''2'']]\<rparr>)
     \<noteq> length (examples \<lparr>corpus_fields = [''b''], examples = []\<rparr>)
   \<and> join \<lparr>corpus_fields = [''a'', ''b''], examples = [[''a'' \<mapsto> ''1'', ''b'' \<mapsto> ''2'']]\<rparr>
          \<lparr>corpus_fields = [''b''], examples = []\<rparr>
       = Inl (ValueError ''Cannot join corpora that have fields in common.'')
   \<and> join \<lparr>corpus_fields = [''a'', ''b''], examples = [[''a'' \<mapsto> ''1'', ''b'' \<mapsto> ''2'']]\<rparr>
          \<lparr>corpus_fields = [''b''], examples = []\<rparr>
       \<noteq> Inl (ValueError ''Joined corpora must contain the same number of rows.'')"
  by (simp add: join_def)

text \<open>
  Claim C6, amended. \<open>join\<close> returns an error, and so no corpus and no joined row, when the
  two field sets share a name (the error about common fields), and when the field sets are
  disjoint and the record counts differ (the row-count error). When the field sets are
  disjoint and the counts equal, the fields of the result are the left fields followed by
  the right fields, it has as many records as each operand, and its i-th record is the
  concatenation of the operands' i-th records: its fields are those of the two records, it
  holds the right record's value at every field of the right record and the left record's
  value at every other field.
\<close>

theorem join_checks_and_rows:
  "(set (corpus_fields a) \<inter> set (corpus_fields b) \<noteq> {} \<longrightarrow>
      join a b = Inl (ValueError ''Cannot join corpora that have fields in common.''))
   \<and> (set (corpus_fields a) \<inter> set (corpus_fields b) = {}
        \<and> length (examples a) \<noteq> length (examples b) \<longrightarrow>
      join a b = Inl (ValueError ''Joined corpora must contain the same number of rows.''))
   \<and> (set (corpus_fields a) \<inter> set (corpus_fields b) = {}
        \<and> length (examples a) = length (examples b) \<longrightarrow>
      (\<exists>c. join a b = Inr c
           \<and> corpus_fields c = corpus_fields a @ corpus_fields b
           \<and> length (examples c) = length (examples a)
           \<and> (\<forall>i < length (examples a).
                 dom (examples c ! i) = dom (examples a ! i) \<union> dom (examples b ! i)
                 \<and> (\<forall>f v. (examples b ! i) f = Some v \<longrightarrow> (examples c ! i) f = Some v)
                 \<and> (\<forall>f. (examples b ! i) f = None \<longrightarrow>
                        (examples c ! i) f = (examples a ! i) f))))"
  by (auto simp: join_def card_gt_0_iff nth_enumerate_eq add_def map_add_def
           split: option.splits)

theorem join_checks_and_rows_witness:
  "join \<lparr>corpus_fields = [''a'', ''b''], examples = []\<rparr> \<lparr>corpus_fields = [''b''], examples = []\<rparr>
     = Inl (ValueError ''Cannot join corpora that have fields in common.'')
   \<and> join \<lparr>corpus_fields = [''a''], examples = [[''a'' \<mapsto> ''1'']]\<rparr>
          \<lparr>corpus_fields = [''b''], examples = []\<rparr>
     = Inl (ValueError ''Joined corpora must contain the same number of rows.'')
   \<and> (\<exists>c. join \<lparr>corpus_fields = [''a''], examples = [[''a'' \<mapsto> ''1'', ''x'' \<mapsto> ''left'']]\<rparr>
                \<lparr>corpus_fields = [''b''], examples = [[''b'' \<mapsto> ''2'', ''x'' \<mapsto> ''right'']]\<rparr>
            = Inr c
          \<and> corpus_fields c = [''a'', ''b'']
          \<and> length (examples c) = 1
          \<and> dom (examples c ! 0) = {''a'', ''b'', ''x''}
          \<and> (examples c ! 0) ''a'' = Some ''1''
          \<and> (examples c ! 0) ''b'' = Some ''2''
          \<and> (examples c ! 0) ''x'' = Some ''right'')"
proof -
  let ?a0 = "\<lparr>corpus_fields = [''a'', ''b''], examples = []\<rparr>"
  let ?b0 = "\<lparr>corpus_fields = [''b''], examples = ([] :: example list)\<rparr>"
  let ?a1 = "\<lparr>corpus_fields = [''a''], examples = [[''a'' \<mapsto> ''1'']]\<rparr>"
  let ?a2 = "\<lparr>corpus_fields = [''a''], examples = [[''a'' \<mapsto> ''1'', ''x'' \<mapsto> ''left'']]\<rparr>"
  let ?b2 = "\<lparr>corpus_fields = [''b''], examples = [[''b'' \<mapsto> ''2'', ''x'' \<mapsto> ''right'']]\<rparr>"
  have h0: "set (corpus_fields ?a0) \<inter> set (corpus_fields ?b0) \<noteq> {}" by simp
  have h1: "set (corpus_fields ?a1) \<inter> set (corpus_fields ?b0) = {}
      \<and> length (examples ?a1) \<noteq> length (examples ?b0)" by simp
  have h2: "set (corpus_fields ?a2) \<inter> set (corpus_fields ?b2) = {}
      \<and> length (examples ?a2) = length (examples ?b2)" by simp
  from join_checks_and_rows [of ?a0 ?b0] h0
  have r0: "join ?a0 ?b0 = Inl (ValueError ''Cannot join corpora that have fields in common.'')"
    by blast
  from join_checks_and_rows [of ?a1 ?b0] h1
  have r1: "join ?a1 ?b0
      = Inl (ValueError ''Joined corpora must contain the same number of rows.'')"
    by blast
  from join_checks_and_rows [of ?a2 ?b2] h2
  obtain c where c: "join ?a2 ?b2 = Inr c"
      "corpus_fields c = corpus_fields ?a2 @ corpus_fields ?b2"
      "length (examples c) = length (examples ?a2)"
      "\<forall>i < length (examples ?a2).
         dom (examples c ! i) = dom (examples ?a2 ! i) \<union> dom (examples ?b2 ! i)
         \<and> (\<forall>f v. (examples ?b2 ! i) f = Some v \<longrightarrow> (examples c ! i) f = Some v)
         \<and> (\<forall>f. (examples ?b2 ! i) f = None \<longrightarrow> (examples c ! i) f = (examples ?a2 ! i) f)"
    by blast
  from c(4) have row: "dom (examples c ! 0) = dom (examples ?a2 ! 0) \<union> dom (examples ?b2 ! 0)"
    "\<And>f v. (examples ?b2 ! 0) f = Some v \<Longrightarrow> (examples c ! 0) f = Some v"
    "\<And>f. (examples ?b2 ! 0) f = None \<Longrightarrow> (examples c ! 0) f = (examples ?a2 ! 0) f"
    by simp_all
  have d: "dom (examples c ! 0) = {''a'', ''b'', ''x''}" using row(1) by auto
  have va: "(examples c ! 0) ''a'' = Some ''1''" using row(3) [of "''a''"] by simp
  have vb: "(examples c ! 0) ''b'' = Some ''2''" using row(2) [of "''b''" "''2''"] by simp
  have vx: "(examples c ! 0) ''x'' = Some ''right''"
    using row(2) [of "''x''" "''right''"] by simp
  from r0 r1 c(1,2,3) d va vb vx show ?thesis by auto
qed

section \<open>Properties of templates\<close>

subsection \<open>Loading\<close>

lemma alternates_snoc:
  "alternates (ps @ [p]) \<longleftrightarrow>
     alternates ps \<and> (ps = [] \<or> (part_key (last ps) = None) \<noteq> (part_key p = None))"
  by (induction ps rule: alternates.induct) auto

lemma alternates_append_left: "alternates (ps @ qs) \<Longrightarrow> alternates ps"
  by (induction ps rule: alternates.induct) auto

lemma same_kind_at_end_snoc:
  "same_kind_at_end (ps @ [p]) \<longleftrightarrow>
     ps \<noteq> [] \<and> (part_key p = None) = (part_key (last ps) = None)"
  by (cases ps rule: rev_cases) (auto simp: same_kind_at_end_def nth_append)

lemma same_kind_at_end_alternates:
  "alternates ps \<Longrightarrow> \<not> same_kind_at_end ps"
  by (cases ps rule: rev_cases)
     (auto simp: same_kind_at_end_snoc alternates_snoc, simp add: same_kind_at_end_def)

lemma append_match_cases:
  "append_match ps m = ps \<or> (\<exists>p. append_match ps m = ps @ [p])"
  by (simp add: append_match_def)

lemma same_kind_at_end_append_match:
  "alternates ps \<Longrightarrow> same_kind_at_end (append_match ps m) \<longleftrightarrow> \<not> alternates (append_match ps m)"
  using append_match_cases [of ps m]
  by (auto simp: same_kind_at_end_snoc alternates_snoc same_kind_at_end_alternates)

lemma foldl_append_match_extends:
  "\<exists>qs. foldl append_match ps ms = ps @ qs"
proof (induction ms arbitrary: ps)
  case Nil
  show ?case by simp
next
  case (Cons m ms)
  from Cons [of "append_match ps m"] append_match_cases [of ps m]
  show ?case by auto
qed

lemma not_alternates_foldl:
  "\<not> alternates ps \<Longrightarrow> \<not> alternates (foldl append_match ps ms)"
  using foldl_append_match_extends [of ps ms] alternates_append_left by metis

lemma parts_loop_alternates:
  "alternates ps \<Longrightarrow>
   parts_loop ms ps =
     (if alternates (foldl append_match ps ms) then Inr (foldl append_match ps ms)
      else Inl (ValueError ''Keys and non-keys must alternate within a template.''))"
proof (induction ms arbitrary: ps)
  case Nil
  then show ?case by simp
next
  case (Cons m ms)
  show ?case
  proof (cases "alternates (append_match ps m)")
    case True
    with Cons show ?thesis
      by (simp add: same_kind_at_end_alternates)
  next
    case False
    with Cons.prems show ?thesis
      by (simp add: same_kind_at_end_append_match not_alternates_foldl)
  qed
qed

lemma parse_template_into_parts_tokenize:
  "parse_template_into_parts r =
     (if \<not> alternates (tokenize r)
      then Inl (ValueError ''Keys and non-keys must alternate within a template.'')
      else if tokenize r = [] then Inl (ValueError ''Template cannot be empty.'')
      else Inr (tokenize r))"
  by (simp add: parse_template_into_parts_def parts_loop_alternates tokenize_def)

lemma alternates_nth:
  "alternates ps \<longleftrightarrow>
     (\<forall>i. i + 1 < length ps \<longrightarrow> (part_key (ps ! i) = None) \<noteq> (part_key (ps ! (i + 1)) = None))"
proof (induction ps rule: alternates.induct)
  case 1
  show ?case by simp
next
  case (2 p)
  show ?case by simp
next
  case (3 p q ps)
  show ?case
  proof
    assume a: "alternates (p # q # ps)"
    show "\<forall>i. i + 1 < length (p # q # ps) \<longrightarrow>
      (part_key ((p # q # ps) ! i) = None) \<noteq> (part_key ((p # q # ps) ! (i + 1)) = None)"
    proof (intro allI impI)
      fix i assume "i + 1 < length (p # q # ps)"
      with a 3 show "(part_key ((p # q # ps) ! i) = None) \<noteq> (part_key ((p # q # ps) ! (i + 1)) = None)"
        by (cases i) auto
    qed
  next
    assume h: "\<forall>i. i + 1 < length (p # q # ps) \<longrightarrow>
      (part_key ((p # q # ps) ! i) = None) \<noteq> (part_key ((p # q # ps) ! (i + 1)) = None)"
    from h [rule_format, of 0] have h0: "(part_key p = None) \<noteq> (part_key q = None)" by simp
    have "\<forall>i. i + 1 < length (q # ps) \<longrightarrow>
      (part_key ((q # ps) ! i) = None) \<noteq> (part_key ((q # ps) ! (i + 1)) = None)"
    proof (intro allI impI)
      fix i assume "i + 1 < length (q # ps)"
      with h [rule_format, of "Suc i"]
      show "(part_key ((q # ps) ! i) = None) \<noteq> (part_key ((q # ps) ! (i + 1)) = None)" by simp
    qed
    with 3 h0 show "alternates (p # q # ps)" by simp
  qed
qed

lemmas eval_defs = load_def Let_def strip_def isspace_def parse_template_into_parts_def
  parse_template_keys_def not_close_def not_brace_def append_match_def truthy_def
  same_kind_at_end_def strip_chars_def

text \<open>
  Claim C7. \<open>load\<close> fails with the error for an empty template whenever the trimmed raw
  string yields no part, and with the error about alternation whenever its tokenization
  yields two neighbouring parts of the same kind; so it does on the empty string and on
  \<open>{a}{b}\<close>.
\<close>

theorem load_rejects_empty_and_adjacent:
  "(tokenize (strip raw0) = [] \<longrightarrow> load raw0 = Inl (ValueError ''Template cannot be empty.''))
   \<and> ((\<exists>i. i + 1 < length (tokenize (strip raw0))
           \<and> (part_key (tokenize (strip raw0) ! i) = None)
               = (part_key (tokenize (strip raw0) ! (i + 1)) = None)) \<longrightarrow>
        load raw0 = Inl (ValueError ''Keys and non-keys must alternate within a template.''))
   \<and> load '''' = Inl (ValueError ''Template cannot be empty.'')
   \<and> load ''{a}{b}'' = Inl (ValueError ''Keys and non-keys must alternate within a template.'')"
proof (intro conjI impI)
  assume "tokenize (strip raw0) = []"
  then show "load raw0 = Inl (ValueError ''Template cannot be empty.'')"
    by (simp add: load_def parse_template_into_parts_tokenize)
next
  assume "\<exists>i. i + 1 < length (tokenize (strip raw0))
           \<and> (part_key (tokenize (strip raw0) ! i) = None)
               = (part_key (tokenize (strip raw0) ! (i + 1)) = None)"
  then have "\<not> alternates (tokenize (strip raw0))"
    by (auto simp: alternates_nth)
  then show "load raw0 = Inl (ValueError ''Keys and non-keys must alternate within a template.'')"
    by (simp add: load_def parse_template_into_parts_tokenize)
next
  show "load '''' = Inl (ValueError ''Template cannot be empty.'')"
    by (simp add: eval_defs)
next
  show "load ''{a}{b}'' = Inl (ValueError ''Keys and non-keys must alternate within a template.'')"
    by (simp add: eval_defs)
qed

theorem load_rejects_empty_and_adjacent_witness:
  "tokenize (strip ''  '') = []
   \<and> load ''  '' = Inl (ValueError ''Template cannot be empty.'')
   \<and> 0 + 1 < length (tokenize (strip '' a}b ''))
   \<and> (part_key (tokenize (strip '' a}b '') ! 0) = None)
       = (part_key (tokenize (strip '' a}b '') ! (0 + 1)) = None)
   \<and> load '' a}b '' = Inl (ValueError ''Keys and non-keys must alternate within a template.'')"
proof -
  have h1: "tokenize (strip ''  '') = []"
    by (simp add: tokenize_def eval_defs)
  have h2: "0 + 1 < length (tokenize (strip '' a}b ''))
     \<and> (part_key (tokenize (strip '' a}b '') ! 0) = None)
         = (part_key (tokenize (strip '' a}b '') ! (0 + 1)) = None)"
    by (simp add: tokenize_def eval_defs)
  from h2 have h3: "\<exists>i. i + 1 < length (tokenize (strip '' a}b ''))
     \<and> (part_key (tokenize (strip '' a}b '') ! i) = None)
         = (part_key (tokenize (strip '' a}b '') ! (i + 1)) = None)"
    by (rule exI [of _ 0])
  from load_rejects_empty_and_adjacent [of "''  ''"] h1
  have c1: "load ''  '' = Inl (ValueError ''Template cannot be empty.'')" by blast
  from load_rejects_empty_and_adjacent [of "'' a}b ''"] h3
  have c2: "load '' a}b '' = Inl (ValueError ''Keys and non-keys must alternate within a template.'')"
    by blast
  from h1 h2 c1 c2 show ?thesis by blast
qed

text \<open>
  In an alternating list the kind of a part follows from the kind of the first part and the
  parity of its index. \<open>parse\<close> visits the odd indices when the first part is a literal and
  the even ones otherwise, so it stores under the key of a placeholder part every time.
\<close>

lemma alternates_kind:
  "alternates ps \<Longrightarrow> i < length ps \<Longrightarrow>
     (part_key (ps ! i) = None) = ((part_key (ps ! 0) = None) = even i)"
proof (induction i)
  case 0
  show ?case by simp
next
  case (Suc i)
  from Suc.prems have "i + 1 < length ps" by simp
  with alternates_nth [THEN iffD1, OF Suc.prems(1), rule_format, of i]
  have "(part_key (ps ! i) = None) \<noteq> (part_key (ps ! (i + 1)) = None)" by simp
  with Suc show ?case by auto
qed

lemma alternates_placeholder_positions:
  assumes "alternates ps" and "i < length ps"
      and "if part_key (ps ! 0) = None then odd i else even i"
  shows "part_key (ps ! i) \<noteq> None"
  using alternates_kind [OF assms(1,2)] assms(3) by (auto split: if_splits)

subsection \<open>The leading literal of parse\<close>

lemmas fill_eval_defs = fill_def bracketed_def missing_key_message_def quoted_def

declare parse_loop.simps [simp del]

lemmas parse_eval_defs = parse_def strip_def isspace_def store_def
  expected_at_start_message_def expected_in_message_def quoted_def parse_loop.simps

text \<open>
  Claim C3. \<open>parse\<close> trims the text, but tests the leading literal on the text as given.
  For the template \<open>Hello {name}\<close>: the trimmed form of \<open> Hello World\<close> starts with the
  literal, and \<open>parse\<close> fails; the trimmed form of \<open>Hello \<close> (with its final space) does
  not start with the literal, and \<open>parse\<close> succeeds with an empty name.
\<close>

theorem parse_checks_untrimmed_text:
  "load ''Hello {name}'' =
     Inr \<lparr>raw = ''Hello {name}'',
          parts = [\<lparr>part_raw = ''Hello '', part_key = None\<rparr>,
                   \<lparr>part_raw = ''{name}'', part_key = Some ''name''\<rparr>],
          keys = [''name'']\<rparr>
   \<and> prefix ''Hello '' (strip '' Hello World'')
   \<and> parse \<lparr>raw = ''Hello {name}'',
          parts = [\<lparr>part_raw = ''Hello '', part_key = None\<rparr>,
                   \<lparr>part_raw = ''{name}'', part_key = Some ''name''\<rparr>],
          keys = [''name'']\<rparr> '' Hello World''
       = Inl (ValueError (expected_at_start_message ''Hello '' '' Hello World''))
   \<and> \<not> prefix ''Hello '' (strip ''Hello '')
   \<and> parse \<lparr>raw = ''Hello {name}'',
          parts = [\<lparr>part_raw = ''Hello '', part_key = None\<rparr>,
                   \<lparr>part_raw = ''{name}'', part_key = Some ''name''\<rparr>],
          keys = [''name'']\<rparr> ''Hello ''
       = Inr [''name'' \<mapsto> '''']"
  by (simp add: eval_defs parse_eval_defs)

section \<open>Properties of mapping definitions and of the mapping engine\<close>

text \<open>
  Claim C5. The check of the key overlap raises exactly when the input and output templates
  share more than one key. Once the three files are read and the two templates loaded,
  \<open>load_from_directory\<close> raises the validation error when the overlap has more than one
  key, and when it has none or one it goes on to the examples, so that its result is that
  of the rest of the function.
\<close>

theorem key_overlap_check:
  "(card (set (keys input_t) \<inter> set (keys output_t)) > 1 \<longrightarrow>
      check_key_overlap input_t output_t
        = Inl (ValueError ''Template key occurs in both input and output templates''))
   \<and> (card (set (keys input_t) \<inter> set (keys output_t)) \<le> 1 \<longrightarrow>
      check_key_overlap input_t output_t = Inr ())
   \<and> (read_file fs (path_join dir_path ''guidelines.txt'') = Inr g0
        \<and> read_file fs (path_join dir_path ''input_template.txt'') = Inr i0
        \<and> load i0 = Inr input_t
        \<and> read_file fs (path_join dir_path ''output_template.txt'') = Inr o0
        \<and> load o0 = Inr output_t \<longrightarrow>
      (card (set (keys input_t) \<inter> set (keys output_t)) > 1 \<longrightarrow>
         load_from_directory fs load_from_file dir_path
           = Inl (ValueError ''Template key occurs in both input and output templates''))
      \<and> (card (set (keys input_t) \<inter> set (keys output_t)) \<le> 1 \<longrightarrow>
         load_from_directory fs load_from_file dir_path
           = load_examples_and_build fs load_from_file dir_path (strip g0) input_t output_t))"
  by (auto simp: check_key_overlap_def load_from_directory_def)
theorem key_overlap_check_witness:
  "load_from_directory
     [''d/guidelines.txt'' \<mapsto> ''g'', ''d/input_template.txt'' \<mapsto> ''{a} and {b}'',
      ''d/output_template.txt'' \<mapsto> ''{b} or {a}'', ''d/examples.yaml'' \<mapsto> '''']
     (\<lambda>p. Inr \<lparr>corpus_fields = [], examples = []\<rparr>) ''d''
    = Inl (ValueError ''Template key occurs in both input and output templates'')
   \<and> (\<exists>defn. load_from_directory
     [''d/guidelines.txt'' \<mapsto> ''g'', ''d/input_template.txt'' \<mapsto> ''{a} and {b}'',
      ''d/output_template.txt'' \<mapsto> ''{a} or {c}'', ''d/examples.yaml'' \<mapsto> '''']
     (\<lambda>p. Inr \<lparr>corpus_fields = [], examples = []\<rparr>) ''d'' = Inr defn)
   \<and> (\<exists>defn. load_from_directory
     [''d/guidelines.txt'' \<mapsto> ''g'', ''d/input_template.txt'' \<mapsto> ''{a} and {b}'',
      ''d/output_template.txt'' \<mapsto> ''{c} or {d}'', ''d/examples.yaml'' \<mapsto> '''']
     (\<lambda>p. Inr \<lparr>corpus_fields = [], examples = []\<rparr>) ''d'' = Inr defn)"
proof -
  let ?lf = "\<lambda>p::string. (Inr \<lparr>corpus_fields = [], examples = []\<rparr> :: error + corpus)"
  let ?fs = "\<lambda>out. [''d/guidelines.txt'' \<mapsto> ''g'', ''d/input_template.txt'' \<mapsto> ''{a} and {b}'',
      ''d/output_template.txt'' \<mapsto> out, ''d/examples.yaml'' \<mapsto> '''']"
  let ?it = "\<lparr>raw = ''{a} and {b}'',
      parts = [\<lparr>part_raw = ''{a}'', part_key = Some ''a''\<rparr>,
               \<lparr>part_raw = '' and '', part_key = None\<rparr>,
               \<lparr>part_raw = ''{b}'', part_key = Some ''b''\<rparr>], keys = [''a'', ''b'']\<rparr>"
  let ?ot = "\<lambda>x y. \<lparr>raw = ''{'' @ x @ ''} or {'' @ y @ ''}'',
      parts = [\<lparr>part_raw = ''{'' @ x @ ''}'', part_key = Some x\<rparr>,
               \<lparr>part_raw = '' or '', part_key = None\<rparr>,
               \<lparr>part_raw = ''{'' @ y @ ''}'', part_key = Some y\<rparr>], keys = [x, y]\<rparr>"
  have pj: "path_join ''d'' ''guidelines.txt'' = ''d/guidelines.txt''"
    "path_join ''d'' ''input_template.txt'' = ''d/input_template.txt''"
    "path_join ''d'' ''output_template.txt'' = ''d/output_template.txt''"
    "path_join ''d'' ''examples.yaml'' = ''d/examples.yaml''"
    by (simp_all add: path_join_def)
  have g: "read_file (?fs out) (path_join ''d'' ''guidelines.txt'') = Inr ''g''" for out
    by (simp add: pj read_file_def)
  have i: "read_file (?fs out) (path_join ''d'' ''input_template.txt'') = Inr ''{a} and {b}''" for out
    by (simp add: pj read_file_def)
  have o: "read_file (?fs out) (path_join ''d'' ''output_template.txt'') = Inr out" for out
    by (simp add: pj read_file_def)
  have li: "load ''{a} and {b}'' = Inr ?it" by (simp add: eval_defs)
  have lo2: "load ''{b} or {a}'' = Inr (?ot ''b'' ''a'')" by (simp add: eval_defs)
  have lo1: "load ''{a} or {c}'' = Inr (?ot ''a'' ''c'')" by (simp add: eval_defs)
  have lo0: "load ''{c} or {d}'' = Inr (?ot ''c'' ''d'')" by (simp add: eval_defs)
  have c2: "card (set (keys ?it) \<inter> set (keys (?ot ''b'' ''a''))) > 1" by simp
  have c1: "card (set (keys ?it) \<inter> set (keys (?ot ''a'' ''c''))) \<le> 1" by simp
  have c0: "card (set (keys ?it) \<inter> set (keys (?ot ''c'' ''d''))) \<le> 1" by simp
  have b: "\<exists>defn. load_examples_and_build (?fs out) ?lf ''d'' (strip ''g'') ?it ot = Inr defn"
    for out ot
    by (simp add: load_examples_and_build_def pj load_examples_from_file_def)
  from key_overlap_check [of ?it "?ot ''b'' ''a''" "?fs ''{b} or {a}''" "''d''" "''g''"
      "''{a} and {b}''" "''{b} or {a}''" ?lf] g i o li lo2 c2
  have r2: "load_from_directory (?fs ''{b} or {a}'') ?lf ''d''
     = Inl (ValueError ''Template key occurs in both input and output templates'')"
    by blast
  from key_overlap_check [of ?it "?ot ''a'' ''c''" "?fs ''{a} or {c}''" "''d''" "''g''"
      "''{a} and {b}''" "''{a} or {c}''" ?lf] g i o li lo1 c1
  have r1: "load_from_directory (?fs ''{a} or {c}'') ?lf ''d''
     = load_examples_and_build (?fs ''{a} or {c}'') ?lf ''d'' (strip ''g'') ?it (?ot ''a'' ''c'')"
    by blast
  from key_overlap_check [of ?it "?ot ''c'' ''d''" "?fs ''{c} or {d}''" "''d''" "''g''"
      "''{a} and {b}''" "''{c} or {d}''" ?lf] g i o li lo0 c0
  have r0: "load_from_directory (?fs ''{c} or {d}'') ?lf ''d''
     = load_examples_and_build (?fs ''{c} or {d}'') ?lf ''d'' (strip ''g'') ?it (?ot ''c'' ''d'')"
    by blast
  from r2 r1 r0 b show ?thesis by simp
qed
lemma parse_loop_error_is_ValueError:
  "parse_loop ps i cur d = Inl e \<Longrightarrow> \<exists>m. e = ValueError m"
proof (induction ps i cur d rule: parse_loop.induct)
  case (1 ps i cur_text d)
  show ?case
  proof (cases "i < length ps")
    case False
    with "1.prems" show ?thesis by (simp add: parse_loop.simps)
  next
    case lt: True
    show ?thesis
    proof (cases "i = length ps - 1")
      case True
      with lt "1.prems" have "parse_loop ps (i + 2) cur_text
          (store (part_key (ps ! i)) cur_text d) = Inl e"
        by (subst (asm) parse_loop.simps) simp
      with "1.IH"(1) [OF lt True] show ?thesis by blast
    next
      case False
      show ?thesis
      proof (cases "find_sub (part_raw (ps ! (i + 1))) cur_text")
        case None
        with lt False "1.prems" show ?thesis
          by (subst (asm) parse_loop.simps) auto
      next
        case (Some j)
        with lt False "1.prems" have "parse_loop ps (i + 2)
            (drop (j + length (part_raw (ps ! (i + 1)))) cur_text)
            (store (part_key (ps ! i)) (take j cur_text) d) = Inl e"
          by (subst (asm) parse_loop.simps) simp
        with "1.IH"(2) [OF lt False Some] show ?thesis by blast
      qed
    qed
  qed
qed

lemma parse_error_is_ValueError:
  "parts t \<noteq> [] \<Longrightarrow> parse t text = Inl e \<Longrightarrow> \<exists>m. e = ValueError m"
  by (auto simp: parse_def Let_def split: list.splits if_splits
           dest: parse_loop_error_is_ValueError)

lemma fold_default:
  "fold (\<lambda>k m. m(k \<mapsto> d)) ks m0 = (\<lambda>k. if k \<in> set ks then Some d else m0 k)"
  by (induction ks arbitrary: m0) auto

lemma default_parsed_eq:
  "default_parsed ks d = (\<lambda>k. if k \<in> set ks then Some d else None)"
  by (simp add: default_parsed_def fold_default)
text \<open>
  Claim C2. When the input template is filled and the collaborator returns a completion
  that the output template fails to parse, the failure is a ValueError with some message;
  with a default, \<open>map\<close> returns the outcome whose raw field is the completion, whose
  parsed mapping sends every key of the output template (and nothing else) to the default,
  whose success flag is false and whose error message is that message; without a default,
  \<open>map\<close> raises that same error.
\<close>

theorem map_gpt_parse_failure:
  assumes "fill (input_template defn) input = Inr msg"
      and "run (prompt_prefix @ [(USER, msg)]) = Inr completion"
      and "prompt_prefix \<noteq> []"
      and "parts (output_template defn) \<noteq> []"
      and "parse (output_template defn) completion = Inl e"
  shows "\<exists>m. e = ValueError m
     \<and> (\<forall>dflt. map_gpt defn prompt_prefix run input (Some dflt) =
            Inr \<lparr>output_raw = completion,
                 parsed = (\<lambda>k. if k \<in> set (keys (output_template defn)) then Some dflt else None),
                 success = False, error_message = Some m\<rparr>)
     \<and> map_gpt defn prompt_prefix run input None = Inl (ValueError m)"
proof -
  from parse_error_is_ValueError [OF assms(4) assms(5)]
  obtain m where m: "e = ValueError m" by blast
  with assms show ?thesis
    by (simp add: map_gpt_def default_parsed_eq)
qed
theorem map_gpt_parse_failure_witness:
  "map_gpt \<lparr>guidelines = ''g'',
            input_template = \<lparr>raw = ''Q: {q}'',
               parts = [\<lparr>part_raw = ''Q: '', part_key = None\<rparr>,
                        \<lparr>part_raw = ''{q}'', part_key = Some ''q''\<rparr>], keys = [''q'']\<rparr>,
            output_template = \<lparr>raw = ''A: {a}'',
               parts = [\<lparr>part_raw = ''A: '', part_key = None\<rparr>,
                        \<lparr>part_raw = ''{a}'', part_key = Some ''a''\<rparr>], keys = [''a'']\<rparr>,
            definition_examples = [], source_dir_path = None\<rparr>
      [(SYSTEM, ''g'')] (\<lambda>p. Inr ''nope'') [''q'' \<mapsto> ''x''] (Some ''?'')
    = Inr \<lparr>output_raw = ''nope'', parsed = [''a'' \<mapsto> ''?''], success = False,
           error_message = Some (expected_at_start_message ''A: '' ''nope'')\<rparr>
   \<and> map_gpt \<lparr>guidelines = ''g'',
            input_template = \<lparr>raw = ''Q: {q}'',
               parts = [\<lparr>part_raw = ''Q: '', part_key = None\<rparr>,
                        \<lparr>part_raw = ''{q}'', part_key = Some ''q''\<rparr>], keys = [''q'']\<rparr>,
            output_template = \<lparr>raw = ''A: {a}'',
               parts = [\<lparr>part_raw = ''A: '', part_key = None\<rparr>,
                        \<lparr>part_raw = ''{a}'', part_key = Some ''a''\<rparr>], keys = [''a'']\<rparr>,
            definition_examples = [], source_dir_path = None\<rparr>
      [(SYSTEM, ''g'')] (\<lambda>p. Inr ''nope'') [''q'' \<mapsto> ''x''] None
    = Inl (ValueError (expected_at_start_message ''A: '' ''nope''))"
proof -
  let ?it = "\<lparr>raw = ''Q: {q}'',
               parts = [\<lparr>part_raw = ''Q: '', part_key = None\<rparr>,
                        \<lparr>part_raw = ''{q}'', part_key = Some ''q''\<rparr>], keys = [''q'']\<rparr>"
  let ?ot = "\<lparr>raw = ''A: {a}'',
               parts = [\<lparr>part_raw = ''A: '', part_key = None\<rparr>,
                        \<lparr>part_raw = ''{a}'', part_key = Some ''a''\<rparr>], keys = [''a'']\<rparr>"
  let ?d = "\<lparr>guidelines = ''g'', input_template = ?it, output_template = ?ot,
            definition_examples = [], source_dir_path = None\<rparr>"
  let ?run = "\<lambda>p::prompt. (Inr ''nope'' :: error + string)"
  have h1: "fill (input_template ?d) [''q'' \<mapsto> ''x''] = Inr ''Q: x''"
    by (simp add: fill_eval_defs)
  have h2: "?run ([(SYSTEM, ''g'')] @ [(USER, ''Q: x'')]) = Inr ''nope''" by simp
  have h3: "[(SYSTEM, ''g'')] \<noteq> []" by simp
  have h4: "parts (output_template ?d) \<noteq> []" by simp
  have h5: "parse (output_template ?d) ''nope''
              = Inl (ValueError (expected_at_start_message ''A: '' ''nope''))"
    by (simp add: parse_eval_defs)
  have k: "(\<lambda>k. if k \<in> set (keys (output_template ?d)) then Some ''?'' else None)
             = [''a'' \<mapsto> ''?'']"
    by (rule ext) simp
  from map_gpt_parse_failure [OF h1 h2 h3 h4 h5] k show ?thesis
    by auto
qed






section \<open>fill and parse on templates with well-formed braces\<close>

subsection \<open>Templates with well-formed braces\<close>

lemma brace_free_simps [simp]:
  "brace_free []"
  "brace_free (c # cs) \<longleftrightarrow> c \<noteq> CHR ''{'' \<and> c \<noteq> CHR ''}'' \<and> brace_free cs"
  "brace_free (xs @ ys) \<longleftrightarrow> brace_free xs \<and> brace_free ys"
  by (auto simp: brace_free_def not_brace_def)

lemma brace_free_set: "brace_free s \<longleftrightarrow> CHR ''{'' \<notin> set s \<and> CHR ''}'' \<notin> set s"
  by (induction s) auto

lemma braces_ok_skip: "brace_free xs \<Longrightarrow> braces_ok b (xs @ ys) = braces_ok b ys"
  by (induction xs) auto

lemma braces_ok_inside:
  "braces_ok True cs \<Longrightarrow>
     CHR ''}'' \<in> set cs \<and> brace_free (takeWhile not_close cs)
     \<and> braces_ok False (drop 1 (dropWhile not_close cs))"
  by (induction cs) (auto simp: not_close_def split: if_splits)

lemma split_at_close:
  "CHR ''}'' \<in> set cs \<Longrightarrow>
     takeWhile not_close cs @ CHR ''}'' # drop 1 (dropWhile not_close cs) = cs"
  by (induction cs) (auto simp: not_close_def)

lemma strip_chars_bracketed:
  assumes "brace_free k"
  shows "strip_chars ''{}'' (bracketed k) = k"
proof (cases k rule: rev_cases)
  case Nil
  then show ?thesis by (simp add: strip_chars_def bracketed_def)
next
  case (snoc k' x)
  with assms have x: "x \<noteq> CHR ''{''" "x \<noteq> CHR ''}''" by auto
  from assms have "dropWhile (\<lambda>c. c \<in> set ''{}'') (k @ ''}'') = k @ ''}''"
    by (cases k) (use snoc in auto)
  with x snoc show ?thesis
    by (simp add: strip_chars_def bracketed_def)
qed

lemma append_match_append: "append_match ps m = ps @ append_match [] m"
  by (simp add: append_match_def)

lemma foldl_append_match:
  "foldl append_match ps ms = ps @ foldl append_match [] ms"
proof (induction ms arbitrary: ps)
  case Nil
  show ?case by simp
next
  case (Cons m ms)
  have "foldl append_match ps (m # ms) = foldl append_match (append_match ps m) ms" by simp
  also have "\<dots> = append_match ps m @ foldl append_match [] ms" by (rule Cons)
  also have "\<dots> = ps @ append_match [] m @ foldl append_match [] ms"
    by (subst append_match_append) simp
  also have "append_match [] m @ foldl append_match [] ms = foldl append_match [] (m # ms)"
    using Cons [of "append_match [] m"] by simp
  finally show ?case .
qed

lemma tokenize_Cons:
  "tokenize (c # cs) =
     (if c = CHR ''{'' then
        (if CHR ''}'' \<in> set cs
         then \<lparr>part_raw = c # takeWhile not_close cs @ ''}'',
               part_key = Some (strip_chars ''{}'' (c # takeWhile not_close cs @ ''}''))\<rparr>
                # tokenize (drop 1 (dropWhile not_close cs))
         else tokenize cs)
      else if c = CHR ''}'' then tokenize cs
      else \<lparr>part_raw = c # takeWhile not_brace cs, part_key = None\<rparr>
             # tokenize (dropWhile not_brace cs))"
  unfolding tokenize_def
  by (subst finditer.simps, simp only: foldl_Cons split: if_splits)
     (auto simp: append_match_def truthy_def foldl_append_match [of "[_]"])

lemma tokenize_Nil [simp]: "tokenize [] = []"
  by (simp add: tokenize_def)

lemma brace_free_takeWhile: "brace_free (takeWhile not_brace cs)"
  by (induction cs) (auto simp: not_brace_def)

lemma findall_keys_skip: "brace_free xs \<Longrightarrow> findall_keys (xs @ ys) = findall_keys ys"
  by (induction xs) auto

lemma tokenize_well_braced:
  "well_braced r \<Longrightarrow>
     concat (map part_raw (tokenize r)) = r \<and> list_all wf_part (tokenize r)
     \<and> findall_keys r = part_keys (tokenize r)"
  unfolding well_braced_def
proof (induction r rule: finditer.induct)
  case 1
  show ?case by (simp add: part_keys_def List.map_filter_simps)
next
  case (2 c cs)
  show ?case
  proof (cases "c = CHR ''{''")
    case True
    with "2.prems" have ins: "braces_ok True cs" by simp
    note b = braces_ok_inside [OF ins]
    let ?k = "takeWhile not_close cs"
    let ?rest = "drop 1 (dropWhile not_close cs)"
    from b have k: "brace_free ?k" by simp
    have key: "strip_chars ''{}'' (c # ?k @ ''}'') = ?k"
      using strip_chars_bracketed [OF k] True by (simp add: bracketed_def)
    from "2.IH"(1) [OF True] b
    have ih: "concat (map part_raw (tokenize ?rest)) = ?rest"
      "list_all wf_part (tokenize ?rest)"
      "findall_keys ?rest = part_keys (tokenize ?rest)" by simp_all
    have tk: "tokenize (c # cs) =
       \<lparr>part_raw = c # ?k @ ''}'', part_key = Some ?k\<rparr> # tokenize ?rest"
      using True b key by (simp add: tokenize_Cons)
    have cc: "c # ?k @ ''}'' @ ?rest = c # cs"
      using split_at_close [of cs] b by simp
    have wfh: "wf_part \<lparr>part_raw = c # ?k @ ''}'', part_key = Some ?k\<rparr>"
      using k True by (simp add: wf_part_def bracketed_def)
    from tk ih cc True b wfh show ?thesis
      by (simp add: part_keys_def List.map_filter_simps)
  next
    case False
    with "2.prems" have nc: "c \<noteq> CHR ''}''" and ok: "braces_ok False cs"
      by (auto split: if_splits)
    let ?rest = "dropWhile not_brace cs"
    have "braces_ok False (takeWhile not_brace cs @ ?rest)" using ok by simp
    then have okr: "braces_ok False ?rest"
      by (simp only: braces_ok_skip [OF brace_free_takeWhile])
    from "2.IH"(4) [OF False nc] okr
    have ih: "concat (map part_raw (tokenize ?rest)) = ?rest"
      "list_all wf_part (tokenize ?rest)"
      "findall_keys ?rest = part_keys (tokenize ?rest)" by simp_all
    have tk: "tokenize (c # cs) =
       \<lparr>part_raw = c # takeWhile not_brace cs, part_key = None\<rparr> # tokenize ?rest"
      using False nc by (simp add: tokenize_Cons)
    have "findall_keys (takeWhile not_brace cs @ ?rest) = findall_keys ?rest"
      by (rule findall_keys_skip [OF brace_free_takeWhile])
    with False have fk: "findall_keys (c # cs) = findall_keys ?rest" by simp
    have wfh: "wf_part \<lparr>part_raw = c # takeWhile not_brace cs, part_key = None\<rparr>"
      using False nc by (simp add: wf_part_def brace_free_takeWhile)
    from tk ih fk wfh show ?thesis
      by (simp add: part_keys_def List.map_filter_simps)
  qed
qed

lemma unique_keys_loop_set:
  "set (unique_keys_loop ks seen acc) = set acc \<union> (set ks - seen)"
  by (induction ks arbitrary: seen acc) auto

lemma unique_keys_loop_distinct:
  "distinct acc \<Longrightarrow> set acc \<subseteq> seen \<Longrightarrow> distinct (unique_keys_loop ks seen acc)"
proof (induction ks arbitrary: seen acc)
  case Nil
  then show ?case by simp
next
  case (Cons k ks)
  show ?case
  proof (cases "k \<in> seen")
    case True
    with Cons show ?thesis by simp
  next
    case False
    with Cons.prems have "distinct (acc @ [k])" "set (acc @ [k]) \<subseteq> insert k seen" by auto
    from Cons.IH [OF this] False show ?thesis by simp
  qed
qed

lemma parse_template_keys_set: "set (parse_template_keys r) = set (findall_keys r)"
  by (simp add: parse_template_keys_def unique_keys_loop_set)

lemma distinct_parse_template_keys: "distinct (parse_template_keys r)"
  by (simp add: parse_template_keys_def unique_keys_loop_distinct)

lemma load_Inr:
  assumes "load raw0 = Inr t"
  shows "raw t = strip raw0" "parts t = tokenize (strip raw0)"
    "keys t = parse_template_keys (strip raw0)"
    "parts t \<noteq> []" "alternates (parts t)" "distinct (keys t)"
  using assms
  by (auto simp: load_def Let_def parse_template_into_parts_tokenize distinct_parse_template_keys
           split: if_splits)

lemma load_well_braced:
  assumes "load raw0 = Inr t" and "well_braced (raw t)"
  shows "concat (map part_raw (parts t)) = raw t" "list_all wf_part (parts t)"
    "set (keys t) = set (part_keys (parts t))"
  using tokenize_well_braced [of "strip raw0"] load_Inr(1,2,3) [OF assms(1)] assms(2)
  by (simp_all add: parse_template_keys_set)

subsection \<open>fill on templates with well-formed braces\<close>

lemma prefix_hd: "old \<noteq> [] \<Longrightarrow> prefix old (c # cs) \<Longrightarrow> hd old = c"
  by (cases old) auto

lemma replace_skip:
  "old \<noteq> [] \<Longrightarrow> hd old \<notin> set s \<Longrightarrow> replace (s @ rest) old new = s @ replace rest old new"
  by (induction s) (auto dest: prefix_hd)

lemma replace_found:
  "old \<noteq> [] \<Longrightarrow> replace (old @ rest) old new = new @ replace rest old new"
  by (cases old) auto

lemma replace_skip_brace_free:
  "brace_free s \<Longrightarrow> replace (s @ rest) (bracketed k) v = s @ replace rest (bracketed k) v"
  by (rule replace_skip) (auto simp: bracketed_def brace_free_set)

lemma prefix_close_eq:
  "brace_free k \<Longrightarrow> brace_free k' \<Longrightarrow> prefix (k @ ''}'') (k' @ CHR ''}'' # rest) \<Longrightarrow> k = k'"
proof (induction k arbitrary: k')
  case Nil
  then show ?case by (cases k') auto
next
  case (Cons x k)
  then show ?case by (cases k') auto
qed

lemma replace_other_key:
  assumes "brace_free k" "brace_free k'" "k \<noteq> k'"
  shows "replace (bracketed k' @ rest) (bracketed k) v
           = bracketed k' @ replace rest (bracketed k) v"
proof -
  have np: "\<not> prefix (bracketed k) (bracketed k' @ rest)"
    using prefix_close_eq [OF assms(1,2), of rest] assms(3) by (auto simp: bracketed_def)
  have "replace (bracketed k' @ rest) (bracketed k) v
          = CHR ''{'' # replace ((k' @ ''}'') @ rest) (bracketed k) v"
    using np by (simp add: bracketed_def)
  also have "replace ((k' @ ''}'') @ rest) (bracketed k) v
          = (k' @ ''}'') @ replace rest (bracketed k) v"
    using assms(2) by (intro replace_skip) (auto simp: bracketed_def brace_free_set)
  finally show ?thesis by (simp add: bracketed_def)
qed

lemma replace_filled_parts:
  assumes "list_all wf_part ps" and "brace_free k" and "brace_free v"
      and "\<And>k' v'. m k' = Some v' \<Longrightarrow> brace_free v'"
      and "m k = None \<or> m k = Some v"
  shows "replace (concat (map (fill_part m) ps)) (bracketed k) v
           = concat (map (fill_part (m(k \<mapsto> v))) ps)"
  using assms(1)
proof (induction ps)
  case Nil
  show ?case by (simp add: bracketed_def)
next
  case (Cons p ps)
  from Cons.prems have wf: "wf_part p" and wfs: "list_all wf_part ps" by simp_all
  note ih = Cons.IH [OF wfs]
  let ?rest = "concat (map (fill_part m) ps)"
  have step: "replace (fill_part m p @ ?rest) (bracketed k) v
                = fill_part (m(k \<mapsto> v)) p @ replace ?rest (bracketed k) v"
  proof (cases "part_key p")
    case None
    with wf show ?thesis
      by (simp add: fill_part_def wf_part_def replace_skip_brace_free)
  next
    case (Some k')
    with wf have k': "brace_free k'" and raw: "part_raw p = bracketed k'"
      by (simp_all add: wf_part_def)
    show ?thesis
    proof (cases "m k'")
      case (Some v')
      with assms(4) have "brace_free v'" by blast
      moreover from Some assms(5) have "k' = k \<longrightarrow> v' = v" by auto
      ultimately show ?thesis
        using \<open>part_key p = Some k'\<close> Some
        by (simp add: fill_part_def replace_skip_brace_free)
    next
      case None
      show ?thesis
      proof (cases "k' = k")
        case True
        with None \<open>part_key p = Some k'\<close> raw show ?thesis
          by (simp add: fill_part_def replace_found bracketed_def)
      next
        case False
        with None \<open>part_key p = Some k'\<close> raw replace_other_key [OF assms(2) k', of rest v for rest]
        show ?thesis
          by (simp add: fill_part_def)
      qed
    qed
  qed
  have "replace (concat (map (fill_part m) (p # ps))) (bracketed k) v
          = replace (fill_part m p @ ?rest) (bracketed k) v" by simp
  also note step
  also note ih
  finally show ?case by (simp only: list.map concat.simps)
qed

lemma fill_loop_filled_parts:
  assumes "list_all wf_part ps"
      and "\<And>k. k \<in> set ks \<union> S \<Longrightarrow> brace_free k \<and> (\<exists>v. values k = Some v \<and> brace_free v)"
  shows "fill_loop ks r values (concat (map (fill_part (values |` S)) ps))
           = Inr (concat (map (fill_part (values |` (S \<union> set ks))) ps))"
  using assms(2)
proof (induction ks arbitrary: S)
  case Nil
  show ?case by simp
next
  case (Cons k ks)
  from Cons.prems [of k] obtain v where v: "values k = Some v" "brace_free v" "brace_free k"
    by auto
  have upd: "(values |` S)(k \<mapsto> v) = values |` (insert k S)"
    using v(1) by (auto simp: restrict_map_def)
  have "replace (concat (map (fill_part (values |` S)) ps)) (bracketed k) v
          = concat (map (fill_part ((values |` S)(k \<mapsto> v))) ps)"
  proof (rule replace_filled_parts [OF assms(1) v(3) v(2)])
    fix k' v' assume "(values |` S) k' = Some v'"
    then have "k' \<in> S" "values k' = Some v'" by (auto simp: restrict_map_def split: if_splits)
    with Cons.prems [of k'] show "brace_free v'" by auto
  next
    show "(values |` S) k = None \<or> (values |` S) k = Some v"
      using v(1) by (auto simp: restrict_map_def)
  qed
  moreover have "fill_loop ks r values (concat (map (fill_part (values |` insert k S)) ps))
          = Inr (concat (map (fill_part (values |` (insert k S \<union> set ks))) ps))"
    by (rule Cons.IH) (use Cons.prems in auto)
  ultimately show ?case using v(1) upd by simp
qed

lemma part_keys_Cons:
  "part_keys (p # ps) = (case part_key p of None \<Rightarrow> part_keys ps | Some k \<Rightarrow> k # part_keys ps)"
  by (simp add: part_keys_def List.map_filter_simps split: option.splits)

lemma part_keys_Nil [simp]: "part_keys [] = []"
  by (simp add: part_keys_def List.map_filter_simps)

lemma in_part_keys: "k \<in> set (part_keys ps) \<longleftrightarrow> (\<exists>p \<in> set ps. part_key p = Some k)"
  by (induction ps) (auto simp: part_keys_Cons split: option.splits)

lemma fill_part_restrict:
  assumes "set (part_keys ps) \<subseteq> S"
  shows "map (fill_part (values |` S)) ps = map (fill_part values) ps"
proof (rule map_cong [OF refl])
  fix p assume p: "p \<in> set ps"
  show "fill_part (values |` S) p = fill_part values p"
  proof (cases "part_key p")
    case None
    then show ?thesis by (simp add: fill_part_def)
  next
    case (Some k)
    with p have "k \<in> set (part_keys ps)" unfolding in_part_keys by blast
    with assms have "k \<in> S" by blast
    with Some show ?thesis by (simp add: fill_part_def)
  qed
qed

lemma fill_part_empty: "map (fill_part Map.empty) ps = map part_raw ps"
  by (induction ps) (auto simp: fill_part_def split: option.splits)

lemma wf_part_keys_brace_free:
  "list_all wf_part ps \<Longrightarrow> k \<in> set (part_keys ps) \<Longrightarrow> brace_free k"
  by (auto simp: in_part_keys list_all_iff wf_part_def split: option.splits)

lemma fill_loop_missing:
  "\<exists>k \<in> set ks. values k = None \<Longrightarrow>
     \<exists>k \<in> set ks. values k = None \<and> fill_loop ks r values filled
        = Inl (ValueError (missing_key_message k r))"
  by (induction ks arbitrary: filled) (auto split: option.splits)

lemma fill_well_braced:
  assumes "load raw0 = Inr t" and "well_braced (raw t)"
      and "\<And>k. k \<in> set (keys t) \<Longrightarrow> \<exists>v. values k = Some v \<and> brace_free v"
  shows "fill t values = Inr (concat (map (fill_part values) (parts t)))"
proof -
  note wb = load_well_braced [OF assms(1,2)]
  have "fill_loop (keys t) (raw t) values (concat (map (fill_part (values |` {})) (parts t)))
          = Inr (concat (map (fill_part (values |` ({} \<union> set (keys t)))) (parts t)))"
  proof (rule fill_loop_filled_parts [OF wb(2)])
    fix k assume "k \<in> set (keys t) \<union> {}"
    then have k: "k \<in> set (keys t)" by simp
    with wb(3) wf_part_keys_brace_free [OF wb(2)] have "brace_free k" by simp
    with assms(3) [OF k] show "brace_free k \<and> (\<exists>v. values k = Some v \<and> brace_free v)" by simp
  qed
  moreover have "map (fill_part (values |` set (keys t))) (parts t)
                   = map (fill_part values) (parts t)"
    by (rule fill_part_restrict) (simp add: wb(3))
  ultimately show ?thesis
    using wb(1) by (simp add: fill_def fill_part_empty)
qed

subsection \<open>parse after fill\<close>

lemma parse_loop_pairs: "parse_loop ps i cur d = parse_pairs (drop i ps) cur d"
proof (induction ps i cur d rule: parse_loop.induct)
  case (1 ps i cur_text d)
  show ?case
  proof (cases "i < length ps")
    case False
    then show ?thesis by (simp add: parse_loop.simps)
  next
    case lt: True
    show ?thesis
    proof (cases "i = length ps - 1")
      case True
      with lt have d2: "drop (Suc (Suc i)) ps = []" and "drop (Suc i) ps = []" by simp_all
      with Cons_nth_drop_Suc [OF lt] have d1: "drop i ps = [ps ! i]" by simp
      have "parse_loop ps i cur_text d
              = parse_loop ps (i + 2) cur_text (store (part_key (ps ! i)) cur_text d)"
        using lt True by (subst parse_loop.simps) simp
      also have "\<dots> = parse_pairs (drop (i + 2) ps) cur_text
                          (store (part_key (ps ! i)) cur_text d)"
        by (rule "1.IH"(1) [OF lt True])
      finally show ?thesis by (simp add: d1 d2)
    next
      case False
      with lt have lt2: "i + 1 < length ps" by simp
      have d1: "drop i ps = ps ! i # ps ! (i + 1) # drop (i + 2) ps"
        using Cons_nth_drop_Suc [OF lt] Cons_nth_drop_Suc [OF lt2] by simp
      show ?thesis
      proof (cases "find_sub (part_raw (ps ! (i + 1))) cur_text")
        case None
        with lt False show ?thesis
          by (subst parse_loop.simps) (simp add: d1)
      next
        case (Some j)
        have "parse_loop ps i cur_text d
              = parse_loop ps (i + 2)
                  (drop (j + length (part_raw (ps ! (i + 1)))) cur_text)
                  (store (part_key (ps ! i)) (take j cur_text) d)"
          using lt False Some by (subst parse_loop.simps) simp
        also have "\<dots> = parse_pairs (drop (i + 2) ps)
                  (drop (j + length (part_raw (ps ! (i + 1)))) cur_text)
                  (store (part_key (ps ! i)) (take j cur_text) d)"
          by (rule "1.IH"(2) [OF lt False Some])
        finally show ?thesis using Some by (simp add: d1)
      qed
    qed
  qed
qed

lemma prefix_shorter:
  "prefix l (xs @ ys) \<Longrightarrow> length l \<le> length xs \<Longrightarrow> prefix l xs"
  by (metis prefix_length_prefix prefixI prefix_order.order_refl append_prefixD
        append.right_neutral prefix_append)

lemma find_sub_prefix: "prefix l xs \<Longrightarrow> find_sub l xs = Some 0"
  by (cases xs) auto

lemma find_sub_extend:
  "find_sub l (v @ l) = Some (length v) \<Longrightarrow> find_sub l (v @ l @ rest) = Some (length v)"
proof (induction v)
  case Nil
  show ?case by (simp add: find_sub_prefix)
next
  case (Cons c v)
  from Cons.prems have np: "\<not> prefix l (c # v @ l)"
    and f: "find_sub l (v @ l) = Some (length v)"
    by (auto split: if_splits)
  have "\<not> prefix l (c # v @ l @ rest)"
  proof
    assume "prefix l (c # v @ l @ rest)"
    then have "prefix l ((c # v @ l) @ rest)" by simp
    then have "prefix l (c # v @ l)" by (rule prefix_shorter) simp
    with np show False by contradiction
  qed
  with Cons.IH [OF f] show ?case by simp
qed

lemma separators_ok_tl: "separators_ok values (q # ps) \<Longrightarrow> separators_ok values ps"
  by (cases ps) auto

lemma alternates_tl: "alternates (q # ps) \<Longrightarrow> alternates ps"
  by (cases ps) auto

lemma parse_pairs_filled:
  assumes "alternates ps" and "ps = [] \<or> part_key (hd ps) \<noteq> None"
      and "separators_ok values ps" and "\<And>k. k \<in> set (part_keys ps) \<Longrightarrow> values k \<noteq> None"
  shows "parse_pairs ps (concat (map (fill_part values) ps)) d
           = Inr (d ++ values |` set (part_keys ps))"
  using assms
proof (induction ps arbitrary: d rule: induct_list012)
  case 1
  show ?case by simp
next
  case (2 p)
  then obtain k v where k: "part_key p = Some k" and v: "values k = Some v"
    by (auto simp: part_keys_Cons)
  have "d(k \<mapsto> v) = d ++ values |` {k}"
    using v by (auto simp: map_add_def restrict_map_def split: option.splits)
  with k v show ?case
    by (simp add: fill_part_def store_def part_keys_Cons)
next
  case (3 p q ps)
  from "3.prems"(2) obtain k where k: "part_key p = Some k" by auto
  with "3.prems"(4) [of k] obtain v where v: "values k = Some v"
    by (auto simp: part_keys_Cons)
  from "3.prems"(1) k have q: "part_key q = None" and alt: "alternates (q # ps)" by auto
  from alt have alt': "alternates ps" by (rule alternates_tl)
  from alt q have hd': "ps = [] \<or> part_key (hd ps) \<noteq> None" by (cases ps) auto
  from "3.prems"(3) k v
  have sep: "find_sub (part_raw q) (v @ part_raw q) = Some (length v)"
    and sep': "separators_ok values ps"
    by (auto simp: fill_part_def dest: separators_ok_tl)
  have keys': "\<And>k'. k' \<in> set (part_keys ps) \<Longrightarrow> values k' \<noteq> None"
    using "3.prems"(4) k q by (simp add: part_keys_Cons)
  let ?rest = "concat (map (fill_part values) ps)"
  have filled: "concat (map (fill_part values) (p # q # ps)) = v @ part_raw q @ ?rest"
    using k v q by (simp add: fill_part_def)
  have found: "find_sub (part_raw q) (v @ part_raw q @ ?rest) = Some (length v)"
    using sep by (rule find_sub_extend)
  have ih: "parse_pairs ps ?rest (d(k \<mapsto> v)) = Inr (d(k \<mapsto> v) ++ values |` set (part_keys ps))"
    by (rule "3.IH"(1) [OF alt' hd' sep' keys'])
  have m: "d(k \<mapsto> v) ++ values |` set (part_keys ps)
             = d ++ values |` set (part_keys (p # q # ps))"
    using v k q by (auto simp: map_add_def restrict_map_def part_keys_Cons split: option.splits)
  show ?case
    unfolding filled using found ih m k
    by (simp add: store_def)
qed

lemma parse_filled:
  assumes "parts t \<noteq> []" and "alternates (parts t)" and "separators_ok values (parts t)"
      and "\<And>k. k \<in> set (part_keys (parts t)) \<Longrightarrow> values k \<noteq> None"
      and "list_all wf_part (parts t)"
      and "strip (concat (map (fill_part values) (parts t)))
             = concat (map (fill_part values) (parts t))"
  shows "parse t (concat (map (fill_part values) (parts t)))
           = Inr (values |` set (part_keys (parts t)))"
proof -
  from assms(1) obtain p0 ps where ps: "parts t = p0 # ps" by (cases "parts t") auto
  let ?text = "concat (map (fill_part values) (parts t))"
  show ?thesis
  proof (cases "part_key p0")
    case None
    from assms(2) ps None have alt: "alternates ps"
      and hd: "ps = [] \<or> part_key (hd ps) \<noteq> None"
      by (auto dest: alternates_tl) (cases ps, auto)
    from assms(3) ps have sep: "separators_ok values ps" by (auto dest: separators_ok_tl)
    have keys': "\<And>k. k \<in> set (part_keys ps) \<Longrightarrow> values k \<noteq> None"
      using assms(4) ps None by (simp add: part_keys_Cons)
    have filled: "?text = part_raw p0 @ concat (map (fill_part values) ps)"
      using ps None by (simp add: fill_part_def)
    have "parse t ?text
            = parse_loop (parts t) 1 (drop (length (part_raw p0)) ?text) Map.empty"
      using ps None assms(6) filled by (simp add: parse_def)
    also have "\<dots> = parse_pairs ps (concat (map (fill_part values) ps)) Map.empty"
      using ps filled by (simp add: parse_loop_pairs)
    also have "\<dots> = Inr (Map.empty ++ values |` set (part_keys ps))"
      by (rule parse_pairs_filled [OF alt hd sep keys'])
    finally show ?thesis using ps None by (simp add: part_keys_Cons)
  next
    case (Some k)
    have "parse t ?text = parse_loop (parts t) 0 ?text Map.empty"
      using ps Some assms(6) by (simp add: parse_def)
    also have "\<dots> = parse_pairs (parts t) ?text Map.empty"
      by (simp add: parse_loop_pairs)
    also have "\<dots> = Inr (Map.empty ++ values |` set (part_keys (parts t)))"
      by (rule parse_pairs_filled [OF assms(2) _ assms(3) assms(4)]) (use ps Some in auto)
    finally show ?thesis by simp
  qed
qed

subsection \<open>The keys of a loaded template, the result of fill, and the round trip\<close>

text \<open>
  The keys of a loaded template are the groups that \<open>findall\<close> returns, each once, in the
  order of their first occurrences; when the braces of the raw string are well formed,
  these are the names of the placeholder parts.
\<close>

lemma remdups_drop_repeated:
  "k \<in> set ys \<Longrightarrow> remdups (xs @ k # ys) = remdups (xs @ ys)"
  by (induction xs) auto

lemma unique_keys_loop_first_occurrences:
  "distinct acc \<Longrightarrow> unique_keys_loop ks (set acc) acc = rev (remdups (rev (acc @ ks)))"
proof (induction ks arbitrary: acc)
  case Nil
  then show ?case by (simp add: distinct_remdups_id)
next
  case (Cons k ks)
  show ?case
  proof (cases "k \<in> set acc")
    case True
    then have "remdups (rev ks @ k # rev acc) = remdups (rev ks @ rev acc)"
      by (intro remdups_drop_repeated) simp
    with True Cons.IH [OF Cons.prems] show ?thesis by simp
  next
    case False
    with Cons.prems have "distinct (acc @ [k])" by simp
    from Cons.IH [OF this] False show ?thesis by simp
  qed
qed

lemma load_keys_first_occurrences:
  assumes "load raw0 = Inr t"
  shows "keys t = rev (remdups (rev (findall_keys (raw t))))"
  using load_Inr(1,3) [OF assms] unique_keys_loop_first_occurrences [of "[]"]
  by (simp add: parse_template_keys_def)

lemma load_invariants_well_braced:
  assumes "load raw0 = Inr t" and "well_braced (raw t)"
  shows "parts t \<noteq> []" and "alternates (parts t)"
    and "keys t = rev (remdups (rev (part_keys (parts t))))"
  using load_Inr [OF assms(1)] load_keys_first_occurrences [OF assms(1)]
    tokenize_well_braced [of "raw t"] assms(2)
  by simp_all

text \<open>
  Claim C8. For the raw string \<open>{{a}\<close> the loaded template has the single placeholder part
  named \<open>a\<close> (\<open>strip('{}')\<close> removes both opening braces), while its keys sequence
  lists \<open>{a\<close> (the group of the regular expression): the keys are not the names of the
  placeholder parts.
\<close>

theorem load_keys_differ_from_part_names:
  "load ''{{a}'' =
     Inr \<lparr>raw = ''{{a}'', parts = [\<lparr>part_raw = ''{{a}'', part_key = Some ''a''\<rparr>],
          keys = [''{a'']\<rparr>"
  by (simp add: eval_defs)

text \<open>
  Claim C4, as stated, fails on two inputs. On \<open>{a}b{c} {b}\<close> with the values \<open>{\<close>,
  \<open>}\<close> and \<open>X\<close> for \<open>a\<close>, \<open>c\<close> and \<open>b\<close>, no value contains the bracketed form of
  a key, yet the replacement of \<open>{b}\<close> also rewrites the text that the first two
  replacements have put together: \<open>fill\<close> returns \<open>X X\<close> and not \<open>{b} X\<close>. On
  \<open>{b} {a{b}\<close>, whose keys are \<open>b\<close> and \<open>a{b\<close>, the replacement of \<open>{b}\<close> destroys the
  occurrence of \<open>{a{b}\<close>: \<open>fill\<close> returns \<open>X {aX\<close> and not \<open>X Y\<close>.
\<close>

theorem fill_replaces_in_sequence_counterexample:
  "load ''{a}b{c} {b}'' =
     Inr \<lparr>raw = ''{a}b{c} {b}'',
          parts = [\<lparr>part_raw = ''{a}'', part_key = Some ''a''\<rparr>,
                   \<lparr>part_raw = ''b'', part_key = None\<rparr>,
                   \<lparr>part_raw = ''{c}'', part_key = Some ''c''\<rparr>,
                   \<lparr>part_raw = '' '', part_key = None\<rparr>,
                   \<lparr>part_raw = ''{b}'', part_key = Some ''b''\<rparr>],
          keys = [''a'', ''c'', ''b'']\<rparr>
   \<and> find_sub ''{a}'' ''{'' = None \<and> find_sub ''{c}'' ''{'' = None \<and> find_sub ''{b}'' ''{'' = None
   \<and> find_sub ''{a}'' ''}'' = None \<and> find_sub ''{c}'' ''}'' = None \<and> find_sub ''{b}'' ''}'' = None
   \<and> find_sub ''{a}'' ''X'' = None \<and> find_sub ''{c}'' ''X'' = None \<and> find_sub ''{b}'' ''X'' = None
   \<and> fill \<lparr>raw = ''{a}b{c} {b}'',
          parts = [\<lparr>part_raw = ''{a}'', part_key = Some ''a''\<rparr>,
                   \<lparr>part_raw = ''b'', part_key = None\<rparr>,
                   \<lparr>part_raw = ''{c}'', part_key = Some ''c''\<rparr>,
                   \<lparr>part_raw = '' '', part_key = None\<rparr>,
                   \<lparr>part_raw = ''{b}'', part_key = Some ''b''\<rparr>],
          keys = [''a'', ''c'', ''b'']\<rparr>
        [''a'' \<mapsto> ''{'', ''c'' \<mapsto> ''}'', ''b'' \<mapsto> ''X''] = Inr ''X X''
   \<and> concat (map (fill_part [''a'' \<mapsto> ''{'', ''c'' \<mapsto> ''}'', ''b'' \<mapsto> ''X''])
         [\<lparr>part_raw = ''{a}'', part_key = Some ''a''\<rparr>,
          \<lparr>part_raw = ''b'', part_key = None\<rparr>,
          \<lparr>part_raw = ''{c}'', part_key = Some ''c''\<rparr>,
          \<lparr>part_raw = '' '', part_key = None\<rparr>,
          \<lparr>part_raw = ''{b}'', part_key = Some ''b''\<rparr>]) = ''{b} X''
   \<and> load ''{b} {a{b}'' =
     Inr \<lparr>raw = ''{b} {a{b}'',
          parts = [\<lparr>part_raw = ''{b}'', part_key = Some ''b''\<rparr>,
                   \<lparr>part_raw = '' '', part_key = None\<rparr>,
                   \<lparr>part_raw = ''{a{b}'', part_key = Some ''a{b''\<rparr>],
          keys = [''b'', ''a{b'']\<rparr>
   \<and> find_sub ''{b}'' ''X'' = None \<and> find_sub ''{a{b}'' ''X'' = None
   \<and> find_sub ''{b}'' ''Y'' = None \<and> find_sub ''{a{b}'' ''Y'' = None
   \<and> fill \<lparr>raw = ''{b} {a{b}'',
          parts = [\<lparr>part_raw = ''{b}'', part_key = Some ''b''\<rparr>,
                   \<lparr>part_raw = '' '', part_key = None\<rparr>,
                   \<lparr>part_raw = ''{a{b}'', part_key = Some ''a{b''\<rparr>],
          keys = [''b'', ''a{b'']\<rparr>
        [''b'' \<mapsto> ''X'', ''a{b'' \<mapsto> ''Y''] = Inr ''X {aX''
   \<and> concat (map (fill_part [''b'' \<mapsto> ''X'', ''a{b'' \<mapsto> ''Y''])
         [\<lparr>part_raw = ''{b}'', part_key = Some ''b''\<rparr>,
          \<lparr>part_raw = '' '', part_key = None\<rparr>,
          \<lparr>part_raw = ''{a{b}'', part_key = Some ''a{b''\<rparr>]) = ''X Y''"
  by (simp add: eval_defs fill_eval_defs fill_part_def)

text \<open>
  Claim C4, amended. If some key of the template has no entry in the values, \<open>fill\<close> raises
  the error that names an absent key and the raw template. If the template was loaded from
  a string with well-formed braces and every key has a value without braces, the raw string
  is the concatenation of the parts, and \<open>fill\<close> returns that concatenation with every
  placeholder part replaced by the value of its key, the same value at every occurrence of
  a repeated key.
\<close>

theorem fill_missing_key_or_filled:
  "((\<exists>k \<in> set (keys t). values k = None) \<longrightarrow>
      (\<exists>k \<in> set (keys t). values k = None
          \<and> fill t values = Inl (ValueError (missing_key_message k (raw t)))))
   \<and> (load raw0 = Inr t \<and> well_braced (raw t)
        \<and> (\<forall>k \<in> set (keys t). \<exists>v. values k = Some v \<and> brace_free v) \<longrightarrow>
      raw t = concat (map part_raw (parts t))
      \<and> fill t values = Inr (concat (map (fill_part values) (parts t))))"
proof (intro conjI impI)
  assume "\<exists>k \<in> set (keys t). values k = None"
  then show "\<exists>k \<in> set (keys t). values k = None
          \<and> fill t values = Inl (ValueError (missing_key_message k (raw t)))"
    unfolding fill_def by (rule fill_loop_missing)
next
  assume a: "load raw0 = Inr t \<and> well_braced (raw t)
        \<and> (\<forall>k \<in> set (keys t). \<exists>v. values k = Some v \<and> brace_free v)"
  then show "raw t = concat (map part_raw (parts t))"
    using load_well_braced(1) [of raw0 t] by simp
  from a show "fill t values = Inr (concat (map (fill_part values) (parts t)))"
    by (intro fill_well_braced [of raw0]) auto
qed

theorem fill_missing_key_or_filled_witness:
  "fill \<lparr>raw = ''Hi {n}, {n}!'',
          parts = [\<lparr>part_raw = ''Hi '', part_key = None\<rparr>,
                   \<lparr>part_raw = ''{n}'', part_key = Some ''n''\<rparr>,
                   \<lparr>part_raw = '', '', part_key = None\<rparr>,
                   \<lparr>part_raw = ''{n}'', part_key = Some ''n''\<rparr>,
                   \<lparr>part_raw = ''!'', part_key = None\<rparr>],
          keys = [''n'']\<rparr> [''n'' \<mapsto> ''Bo''] = Inr ''Hi Bo, Bo!''
   \<and> fill \<lparr>raw = ''Hi {n}, {n}!'',
          parts = [\<lparr>part_raw = ''Hi '', part_key = None\<rparr>,
                   \<lparr>part_raw = ''{n}'', part_key = Some ''n''\<rparr>,
                   \<lparr>part_raw = '', '', part_key = None\<rparr>,
                   \<lparr>part_raw = ''{n}'', part_key = Some ''n''\<rparr>,
                   \<lparr>part_raw = ''!'', part_key = None\<rparr>],
          keys = [''n'']\<rparr> [''m'' \<mapsto> ''Bo'']
       = Inl (ValueError (missing_key_message ''n'' ''Hi {n}, {n}!''))"
proof -
  let ?t = "\<lparr>raw = ''Hi {n}, {n}!'',
          parts = [\<lparr>part_raw = ''Hi '', part_key = None\<rparr>,
                   \<lparr>part_raw = ''{n}'', part_key = Some ''n''\<rparr>,
                   \<lparr>part_raw = '', '', part_key = None\<rparr>,
                   \<lparr>part_raw = ''{n}'', part_key = Some ''n''\<rparr>,
                   \<lparr>part_raw = ''!'', part_key = None\<rparr>],
          keys = [''n'']\<rparr>"
  have l: "load '' Hi {n}, {n}! '' = Inr ?t" by (simp add: eval_defs)
  have w: "well_braced (raw ?t)" by (simp add: well_braced_def)
  have v: "\<forall>k \<in> set (keys ?t). \<exists>v. [''n'' \<mapsto> ''Bo''] k = Some v \<and> brace_free v" by simp
  have c: "concat (map (fill_part [''n'' \<mapsto> ''Bo'']) (parts ?t)) = ''Hi Bo, Bo!''"
    by (simp add: fill_part_def)
  have m: "\<exists>k \<in> set (keys ?t). [''m'' \<mapsto> ''Bo''] k = None" by simp
  from fill_missing_key_or_filled [of ?t "[''n'' \<mapsto> ''Bo'']" "'' Hi {n}, {n}! ''"] l w v c
  have r1: "fill ?t [''n'' \<mapsto> ''Bo''] = Inr ''Hi Bo, Bo!''" by simp
  from fill_missing_key_or_filled [of ?t "[''m'' \<mapsto> ''Bo'']" "'' Hi {n}, {n}! ''"] m
  have r2: "fill ?t [''m'' \<mapsto> ''Bo'']
       = Inl (ValueError (missing_key_message ''n'' ''Hi {n}, {n}!''))" by simp
  from r1 r2 show ?thesis by simp
qed

text \<open>
  Claim C1, as stated, fails on four inputs, where no value contains a literal of the
  template or the bracketed form of a key. On \<open>{x}aa{y}\<close> with \<open>a\<close> for \<open>x\<close>, the
  separator is found one character early, across the end of the value. On \<open>{a}\<close> with the
  value \<open> x\<close>, \<open>parse\<close> trims the leading space of the value away. On \<open>{a}b{c} {b}\<close> with the
  values \<open>{\<close>, \<open>}\<close> and \<open>X\<close>, \<open>fill\<close> returns \<open>X X\<close>, which \<open>parse\<close> rejects. On
  \<open>a}{b}\<close>, whose closing brace belongs to no part, \<open>parse\<close> returns the brace with the value.
\<close>

theorem parse_fill_round_trip_counterexample:
  "load ''{x}aa{y}'' =
     Inr \<lparr>raw = ''{x}aa{y}'',
          parts = [\<lparr>part_raw = ''{x}'', part_key = Some ''x''\<rparr>,
                   \<lparr>part_raw = ''aa'', part_key = None\<rparr>,
                   \<lparr>part_raw = ''{y}'', part_key = Some ''y''\<rparr>],
          keys = [''x'', ''y'']\<rparr>
   \<and> find_sub ''aa'' ''a'' = None \<and> find_sub ''{x}'' ''a'' = None \<and> find_sub ''{y}'' ''a'' = None
   \<and> find_sub ''aa'' ''b'' = None \<and> find_sub ''{x}'' ''b'' = None \<and> find_sub ''{y}'' ''b'' = None
   \<and> fill \<lparr>raw = ''{x}aa{y}'',
          parts = [\<lparr>part_raw = ''{x}'', part_key = Some ''x''\<rparr>,
                   \<lparr>part_raw = ''aa'', part_key = None\<rparr>,
                   \<lparr>part_raw = ''{y}'', part_key = Some ''y''\<rparr>],
          keys = [''x'', ''y'']\<rparr> [''x'' \<mapsto> ''a'', ''y'' \<mapsto> ''b''] = Inr ''aaab''
   \<and> parse \<lparr>raw = ''{x}aa{y}'',
          parts = [\<lparr>part_raw = ''{x}'', part_key = Some ''x''\<rparr>,
                   \<lparr>part_raw = ''aa'', part_key = None\<rparr>,
                   \<lparr>part_raw = ''{y}'', part_key = Some ''y''\<rparr>],
          keys = [''x'', ''y'']\<rparr> ''aaab'' = Inr [''x'' \<mapsto> '''', ''y'' \<mapsto> ''ab'']
   \<and> [''x'' \<mapsto> '''', ''y'' \<mapsto> ''ab''] ''x'' \<noteq> [''x'' \<mapsto> ''a'', ''y'' \<mapsto> ''b''] ''x''
   \<and> load ''{a}'' =
     Inr \<lparr>raw = ''{a}'', parts = [\<lparr>part_raw = ''{a}'', part_key = Some ''a''\<rparr>],
          keys = [''a'']\<rparr>
   \<and> find_sub ''{a}'' '' x'' = None
   \<and> fill \<lparr>raw = ''{a}'', parts = [\<lparr>part_raw = ''{a}'', part_key = Some ''a''\<rparr>],
          keys = [''a'']\<rparr> [''a'' \<mapsto> '' x''] = Inr '' x''
   \<and> parse \<lparr>raw = ''{a}'', parts = [\<lparr>part_raw = ''{a}'', part_key = Some ''a''\<rparr>],
          keys = [''a'']\<rparr> '' x'' = Inr [''a'' \<mapsto> ''x'']
   \<and> [''a'' \<mapsto> ''x''] ''a'' \<noteq> [''a'' \<mapsto> '' x''] ''a''
   \<and> find_sub ''b'' ''{'' = None \<and> find_sub '' '' ''{'' = None
   \<and> find_sub ''b'' ''}'' = None \<and> find_sub '' '' ''}'' = None
   \<and> find_sub ''b'' ''X'' = None \<and> find_sub '' '' ''X'' = None
   \<and> find_sub ''{a}'' ''{'' = None \<and> find_sub ''{c}'' ''{'' = None \<and> find_sub ''{b}'' ''{'' = None
   \<and> find_sub ''{a}'' ''}'' = None \<and> find_sub ''{c}'' ''}'' = None \<and> find_sub ''{b}'' ''}'' = None
   \<and> find_sub ''{a}'' ''X'' = None \<and> find_sub ''{c}'' ''X'' = None \<and> find_sub ''{b}'' ''X'' = None
   \<and> fill \<lparr>raw = ''{a}b{c} {b}'',
          parts = [\<lparr>part_raw = ''{a}'', part_key = Some ''a''\<rparr>,
                   \<lparr>part_raw = ''b'', part_key = None\<rparr>,
                   \<lparr>part_raw = ''{c}'', part_key = Some ''c''\<rparr>,
                   \<lparr>part_raw = '' '', part_key = None\<rparr>,
                   \<lparr>part_raw = ''{b}'', part_key = Some ''b''\<rparr>],
          keys = [''a'', ''c'', ''b'']\<rparr>
        [''a'' \<mapsto> ''{'', ''c'' \<mapsto> ''}'', ''b'' \<mapsto> ''X''] = Inr ''X X''
   \<and> parse \<lparr>raw = ''{a}b{c} {b}'',
          parts = [\<lparr>part_raw = ''{a}'', part_key = Some ''a''\<rparr>,
                   \<lparr>part_raw = ''b'', part_key = None\<rparr>,
                   \<lparr>part_raw = ''{c}'', part_key = Some ''c''\<rparr>,
                   \<lparr>part_raw = '' '', part_key = None\<rparr>,
                   \<lparr>part_raw = ''{b}'', part_key = Some ''b''\<rparr>],
          keys = [''a'', ''c'', ''b'']\<rparr> ''X X''
       = Inl (ValueError (expected_in_message ''b'' ''X X''))
   \<and> load ''a}{b}'' =
     Inr \<lparr>raw = ''a}{b}'',
          parts = [\<lparr>part_raw = ''a'', part_key = None\<rparr>,
                   \<lparr>part_raw = ''{b}'', part_key = Some ''b''\<rparr>],
          keys = [''b'']\<rparr>
   \<and> find_sub ''a'' ''v'' = None \<and> find_sub ''{b}'' ''v'' = None
   \<and> fill \<lparr>raw = ''a}{b}'',
          parts = [\<lparr>part_raw = ''a'', part_key = None\<rparr>,
                   \<lparr>part_raw = ''{b}'', part_key = Some ''b''\<rparr>],
          keys = [''b'']\<rparr> [''b'' \<mapsto> ''v''] = Inr ''a}v''
   \<and> parse \<lparr>raw = ''a}{b}'',
          parts = [\<lparr>part_raw = ''a'', part_key = None\<rparr>,
                   \<lparr>part_raw = ''{b}'', part_key = Some ''b''\<rparr>],
          keys = [''b'']\<rparr> ''a}v'' = Inr [''b'' \<mapsto> ''}v'']
   \<and> [''b'' \<mapsto> ''}v''] ''b'' \<noteq> [''b'' \<mapsto> ''v''] ''b''"
  by (simp add: eval_defs fill_eval_defs parse_eval_defs)

text \<open>
  Claim C1, amended. For a template loaded from a string with well-formed braces and values
  that give every key a string without braces: if every value followed by the literal
  after its placeholder contains that literal at its end only, and the filled text has no
  white space at its ends, then \<open>parse\<close> applied to the filled text returns the values,
  restricted to the keys of the template.
\<close>

theorem parse_fill_round_trip:
  assumes "load raw0 = Inr t" and "well_braced (raw t)"
      and "\<forall>k \<in> set (keys t). \<exists>v. values k = Some v \<and> brace_free v"
      and "separators_ok values (parts t)"
      and "fill t values = Inr filled" and "strip filled = filled"
  shows "parse t filled = Inr (values |` set (keys t))"
proof -
  from assms(3) have vals: "\<And>k. k \<in> set (keys t) \<Longrightarrow> \<exists>v. values k = Some v \<and> brace_free v"
    by blast
  note wb = load_well_braced [OF assms(1,2)]
  note ld = load_Inr [OF assms(1)]
  have filled: "filled = concat (map (fill_part values) (parts t))"
    using fill_well_braced [OF assms(1,2) vals] assms(5) by simp
  have "parse t (concat (map (fill_part values) (parts t)))
          = Inr (values |` set (part_keys (parts t)))"
  proof (rule parse_filled [OF ld(4) ld(5) assms(4) _ wb(2)])
    fix k assume "k \<in> set (part_keys (parts t))"
    with wb(3) vals [of k] show "values k \<noteq> None" by auto
  next
    show "strip (concat (map (fill_part values) (parts t)))
             = concat (map (fill_part values) (parts t))"
      using assms(6) filled by simp
  qed
  with filled wb(3) show ?thesis by simp
qed

theorem parse_fill_round_trip_witness:
  "parse \<lparr>raw = ''Hello, {name}! You are {age}.'',
          parts = [\<lparr>part_raw = ''Hello, '', part_key = None\<rparr>,
                   \<lparr>part_raw = ''{name}'', part_key = Some ''name''\<rparr>,
                   \<lparr>part_raw = ''! You are '', part_key = None\<rparr>,
                   \<lparr>part_raw = ''{age}'', part_key = Some ''age''\<rparr>,
                   \<lparr>part_raw = ''.'', part_key = None\<rparr>],
          keys = [''name'', ''age'']\<rparr> ''Hello, World! You are 42.''
     = Inr ([''name'' \<mapsto> ''World'', ''age'' \<mapsto> ''42'', ''other'' \<mapsto> ''!'']
              |` {''name'', ''age''})"
proof -
  let ?t = "\<lparr>raw = ''Hello, {name}! You are {age}.'',
          parts = [\<lparr>part_raw = ''Hello, '', part_key = None\<rparr>,
                   \<lparr>part_raw = ''{name}'', part_key = Some ''name''\<rparr>,
                   \<lparr>part_raw = ''! You are '', part_key = None\<rparr>,
                   \<lparr>part_raw = ''{age}'', part_key = Some ''age''\<rparr>,
                   \<lparr>part_raw = ''.'', part_key = None\<rparr>],
          keys = [''name'', ''age'']\<rparr>"
  let ?v = "[''name'' \<mapsto> ''World'', ''age'' \<mapsto> ''42'', ''other'' \<mapsto> ''!'']"
  have l: "load ''Hello, {name}! You are {age}.'' = Inr ?t" by (simp add: eval_defs)
  have w: "well_braced (raw ?t)" by (simp add: well_braced_def)
  have v: "\<forall>k \<in> set (keys ?t). \<exists>v. ?v k = Some v \<and> brace_free v" by simp
  have s: "separators_ok ?v (parts ?t)" by (simp add: fill_part_def)
  have f: "fill ?t ?v = Inr ''Hello, World! You are 42.''" by (simp add: fill_eval_defs)
  have n: "strip ''Hello, World! You are 42.'' = ''Hello, World! You are 42.''"
    by (simp add: strip_def isspace_def)
  from parse_fill_round_trip [OF l w v s f n] show ?thesis by simp
qed

end
